theory Spec2Isabelle
  imports Complex_Main "HOL-Library.Monad_Syntax"
begin

section \<open>Numerical conventions\<close>

text \<open>
  The numpy arrays of the program hold double-precision floats.  They are modelled sample by
  sample over the exact reals: every operation below returns the exact value, where the
  program returns that value rounded.  A value of type \<open>real option\<close> is a float that may
  fail to be a finite number: \<open>None\<close> stands for \<open>nan\<close> or an infinity, which is what numpy
  produces (with a warning, without raising) for a fractional power of a negative base, the
  square root of a negative number, an \<open>arccos\<close> outside \<open>[-1, 1]\<close> and a division by zero.

  The operations decide on the argument they are given.  Composed without rounding they
  describe the program only where rounding does not move an argument across the edge of a
  domain and does not cancel the leading digits of a difference; overflow to infinity is
  not described either.  The properties below say where they rely on this.
\<close>

definition eps :: real where
  "eps = 1 / 10 ^ 10"

definition clip_min :: "real \<Rightarrow> real \<Rightarrow> real" where
  \<comment> \<open>\<open>x.clip(a, None)\<close>\<close>
  "clip_min a x = max a x"

definition clip :: "real \<Rightarrow> real \<Rightarrow> real \<Rightarrow> real" where
  \<comment> \<open>\<open>x.clip(a, b)\<close>\<close>
  "clip a b x = min b (max a x)"

definition np_sqrt :: "real \<Rightarrow> real option" where
  "np_sqrt x = (if x < 0 then None else Some (sqrt x))"

definition np_power :: "real \<Rightarrow> real \<Rightarrow> real option" where
  \<comment> \<open>\<open>x ** y\<close> for a float exponent \<open>y\<close>, decided on the exact value of the base \<open>x\<close>\<close>
  "np_power x y =
     (if x < 0 then None
      else if x = 0 then (if y < 0 then None else if y = 0 then Some 1 else Some 0)
      else Some (x powr y))"

definition np_arccos :: "real \<Rightarrow> real option" where
  "np_arccos x = (if - 1 \<le> x \<and> x \<le> 1 then Some (arccos x) else None)"

definition np_divide :: "real \<Rightarrow> real \<Rightarrow> real option" where
  "np_divide x y = (if y = 0 then None else Some (x / y))"


section \<open>Envelope kinematics (UlrichEnvelope.py)\<close>

subsection \<open>The streamline root of \<open>velrho\<close>\<close>

text \<open>
  \<open>velrho\<close> clips its inputs, computes \<open>p\<close> and \<open>q\<close>, and fills the array \<open>mu0\<close>, which starts
  as \<open>nan\<close> everywhere, by three masked assignments in sequence.  The definitions below are
  the values of the source's variables at one sample; \<open>velrho_mu0\<close> is the sample of \<open>mu0\<close>
  after the three assignments.  The velocities and the density that \<open>velrho\<close> derives from
  \<open>mu0\<close> afterwards are not part of this development.
\<close>

definition velrho_radius :: "real \<Rightarrow> real" where
  "velrho_radius radius = clip_min eps radius"

definition velrho_mu :: "real \<Rightarrow> real" where
  "velrho_mu theta = clip eps 1 \<bar>cos theta\<bar>"

definition velrho_p :: "real \<Rightarrow> real" where
  "velrho_p radius = (velrho_radius radius - 1) / 3"

definition velrho_q :: "real \<Rightarrow> real \<Rightarrow> real" where
  "velrho_q radius theta = velrho_mu theta * velrho_radius radius / 2"

definition velrho_p_minus :: "real \<Rightarrow> real" where
  "velrho_p_minus radius = clip_min 0 (- velrho_p radius)"

definition velrho_D :: "real \<Rightarrow> real \<Rightarrow> real" where
  \<comment> \<open>the second \<open>D\<close> of the source, \<open>q**2 - p_minus**3\<close>\<close>
  "velrho_D radius theta = (velrho_q radius theta)\<^sup>2 - (velrho_p_minus radius) ^ 3"

definition velrho_D_A :: "real \<Rightarrow> real \<Rightarrow> real" where
  \<comment> \<open>the first \<open>D\<close> of the source, \<open>q[c]**2 + p[c]**3\<close>, which \<open>mu0_A\<close> computes\<close>
  "velrho_D_A radius theta = (velrho_q radius theta)\<^sup>2 + (velrho_p radius) ^ 3"

definition mask_A :: "real \<Rightarrow> bool" where
  "mask_A radius = (velrho_radius radius \<ge> 1)"

definition mask_B :: "real \<Rightarrow> real \<Rightarrow> bool" where
  "mask_B radius theta = (velrho_radius radius < 1 \<and> velrho_D radius theta \<ge> 0)"

definition mask_C :: "real \<Rightarrow> real \<Rightarrow> bool" where
  "mask_C radius theta = (velrho_D radius theta < 0)"

definition mu0_A_value :: "real \<Rightarrow> real \<Rightarrow> real option" where
  \<comment> \<open>line 24, from the values of \<open>D\<close> and \<open>qD\<close>:
      \<open>D**(1/6) * ((1 + qD)**(1/3) - (1 - qD)**(1/3))\<close>\<close>
  "mu0_A_value D qD = do {
     s \<leftarrow> np_power D (1 / 6);
     a \<leftarrow> np_power (1 + qD) (1 / 3);
     b \<leftarrow> np_power (1 - qD) (1 / 3);
     Some (s * (a - b))
   }"

definition mu0_A :: "real \<Rightarrow> real \<Rightarrow> real option" where
  \<comment> \<open>lines 22 to 24\<close>
  "mu0_A p q = do {
     let D = q\<^sup>2 + p ^ 3;
     h \<leftarrow> np_power D (- 1 / 2);
     let qD = q * h;
     mu0_A_value D qD
   }"

definition mu0_B :: "real \<Rightarrow> real \<Rightarrow> real option" where
  "mu0_B q D = do {
     r \<leftarrow> np_sqrt D;
     a \<leftarrow> np_power (q + r) (1 / 3);
     b \<leftarrow> np_power (q - r) (1 / 3);
     Some (a + b)
   }"

definition mu0_C :: "real \<Rightarrow> real \<Rightarrow> real option" where
  "mu0_C q p_minus = do {
     s \<leftarrow> np_sqrt p_minus;
     h \<leftarrow> np_power p_minus (- 3 / 2);
     t \<leftarrow> np_arccos (q * h);
     Some (2 * s * cos (t / 3))
   }"

definition velrho_mu0 :: "real \<Rightarrow> real \<Rightarrow> real option" where
  "velrho_mu0 radius theta =
     (let mu0 = None;
          mu0 = (if mask_A radius
                 then mu0_A (velrho_p radius) (velrho_q radius theta) else mu0);
          mu0 = (if mask_B radius theta
                 then mu0_B (velrho_q radius theta) (velrho_D radius theta) else mu0);
          mu0 = (if mask_C radius theta
                 then mu0_C (velrho_q radius theta) (velrho_p_minus radius) else mu0)
      in mu0)"

definition velrho_mu0_array :: "real list \<Rightarrow> real list \<Rightarrow> real option list" where
  "velrho_mu0_array radius theta = map (\<lambda>(r, t). velrho_mu0 r t) (zip radius theta)"

definition velrho_branch_count :: "real \<Rightarrow> real \<Rightarrow> nat" where
  \<comment> \<open>how many of the three masked assignments write the sample\<close>
  "velrho_branch_count radius theta =
     of_bool (mask_A radius) + of_bool (mask_B radius theta) + of_bool (mask_C radius theta)"

definition code_cubic_consistent :: "real \<Rightarrow> real \<Rightarrow> bool" where
  \<comment> \<open>the cubic that the code solves, \<open>mu0^3 + 3 p mu0 - 2 q = 0\<close> in the code's variables
      \<open>p\<close> and \<open>q\<close>, to a relative tolerance of \<open>1e-9\<close>\<close>
  "code_cubic_consistent radius theta =
     (case velrho_mu0 radius theta of
        None \<Rightarrow> False
      | Some m \<Rightarrow>
          (let p = velrho_p radius; q = velrho_q radius theta
           in \<bar>m ^ 3 + 3 * p * m - 2 * q\<bar> \<le>
              (1 / 10 ^ 9) * (\<bar>m ^ 3\<bar> + \<bar>3 * p * m\<bar> + \<bar>2 * q\<bar>)))"

definition spec_cubic_consistent :: "real \<Rightarrow> real \<Rightarrow> bool" where
  \<comment> \<open>the cubic as the specification words it, with \<open>p = (radius - 1) / 3\<close> and
      \<open>q = cos theta * radius / 2\<close>, to a relative tolerance of \<open>1e-9\<close>\<close>
  "spec_cubic_consistent radius theta =
     (case velrho_mu0 radius theta of
        None \<Rightarrow> False
      | Some m \<Rightarrow>
          (let p = (radius - 1) / 3; q = cos theta * radius / 2
           in \<bar>m ^ 3 + p * m - q\<bar> \<le> (1 / 10 ^ 9) * (\<bar>m ^ 3\<bar> + \<bar>p * m\<bar> + \<bar>q\<bar>)))"


subsection \<open>\<open>kepvel\<close> and \<open>rotbase\<close>\<close>

definition kepvel :: "real \<Rightarrow> real \<Rightarrow> real \<times> real \<times> real option" where
  "kepvel radius theta =
     (let r = clip_min eps radius * sin theta;
          vr = 0;
          vt = 0;
          vp = do { s \<leftarrow> np_sqrt r; np_divide 1 s }
      in (vr, vt, vp))"

type_synonym vec3 = "real \<times> real \<times> real"

definition rotbase :: "real \<Rightarrow> real \<Rightarrow> vec3 \<times> vec3 \<times> vec3" where
  "rotbase t p =
     (let er = (sin t * sin p, - sin t * cos p, cos t);
          et = (cos t * sin p, - cos t * cos p, - sin t);
          ep = (cos p, sin p, 0)
      in (er, et, ep))"

definition dot :: "vec3 \<Rightarrow> vec3 \<Rightarrow> real" where
  "dot a b = (case a of (a1, a2, a3) \<Rightarrow> case b of (b1, b2, b3) \<Rightarrow> a1 * b1 + a2 * b2 + a3 * b3)"

definition norm3 :: "vec3 \<Rightarrow> real" where
  "norm3 a = sqrt (dot a a)"

section \<open>The mock position-velocity pipeline (mockpvd.py)\<close>

subsection \<open>Arrays, errors and the module-level cache\<close>

text \<open>
  A three-dimensional array is a list of lists of lists, indexed \<open>[v][x][y]\<close> as the
  optical-depth cube of \<open>generate_pvd\<close> is; a PV image is indexed \<open>[v][x]\<close>.  A Python
  exception is an error value.

  A division by zero raises nothing in numpy: the array then holds \<open>nan\<close> or infinite
  entries and the program goes on.  \<open>Bad s\<close> is an array of shape \<open>s\<close> downstream of such a
  division; its entries are not followed here, while its shape, the exceptions it can
  still cause and the writes to the cache are.  \<open>NanKernel\<close> is the kernel that the code
  builds from a zero line width or a zero beam axis: all its entries are \<open>nan\<close>.
\<close>

type_synonym cube = "real list list list"

type_synonym image = "real list list"

datatype error = IndexError | ValueError | TypeError | AttributeError

datatype arr = Arr cube | Bad "nat \<times> nat \<times> nat"

datatype img = Img image | BadImg "nat \<times> nat"

datatype kernel = Kernel cube | NanKernel

definition bind_err :: "error + 'a \<Rightarrow> ('a \<Rightarrow> error + 'b) \<Rightarrow> error + 'b" where
  "bind_err m f = (case m of Inl e \<Rightarrow> Inl e | Inr x \<Rightarrow> f x)"

text \<open>
  The attributes of a \<open>MockPVD\<close> object that \<open>generate_pvd\<close> reads: the model axes \<open>self.x\<close>
  and \<open>self.v\<close>, the transverse axis \<open>self.y\<close> (an attribute that \<open>makegrid\<close> sets only when the
  object was built with a beam), \<open>self.grid.ny\<close>, \<open>self.nsubgrid\<close> and \<open>self.beam\<close>.
\<close>

record mockpvd =
  self_x :: "real list"
  self_y :: "real list option"
  self_v :: "real list"
  grid_ny :: nat
  nsubgrid :: nat
  self_beam :: "(real \<times> real \<times> real) option"

text \<open>
  The three variables of the module \<open>precalculation\<close> that \<open>generate_pvd\<close> tests against
  \<open>None\<close> and assigns.  The module itself is not among the sources; its variables are the
  state that the calls pass on.  Every result below comes paired with the cache as the call
  leaves it, also when the call raises.
\<close>

record cache =
  vedge :: "real list option"
  gauss_v :: "kernel option"
  gauss_xy :: "kernel option"

definition empty_cache :: cache where
  "empty_cache = \<lparr>vedge = None, gauss_v = None, gauss_xy = None\<rparr>"


subsection \<open>Convolution in mode \<open>same\<close>\<close>

text \<open>
  \<open>scipy.signal.convolve(a, g, mode='same')\<close> on three-dimensional arrays: the full discrete
  convolution, cut to the shape of \<open>a\<close> and centred, which starts at offset
  \<open>(m - 1) // 2\<close> of the full output along an axis where \<open>g\<close> has length \<open>m\<close>.
\<close>

definition shape :: "cube \<Rightarrow> nat \<times> nat \<times> nat" where
  "shape c =
     (length c,
      (case c of [] \<Rightarrow> 0 | p # _ \<Rightarrow> length p),
      (case c of [] \<Rightarrow> 0 | p # _ \<Rightarrow> (case p of [] \<Rightarrow> 0 | r # _ \<Rightarrow> length r)))"

definition kernel_at :: "cube \<Rightarrow> nat \<times> nat \<times> nat \<Rightarrow> int \<Rightarrow> int \<Rightarrow> int \<Rightarrow> real" where
  \<comment> \<open>the kernel entry at a signed index, zero outside the kernel\<close>
  "kernel_at g m i j k =
     (case m of (m0, m1, m2) \<Rightarrow>
        if 0 \<le> i \<and> i < int m0 \<and> 0 \<le> j \<and> j < int m1 \<and> 0 \<le> k \<and> k < int m2
        then g ! nat i ! nat j ! nat k else 0)"

definition convolve_same :: "cube \<Rightarrow> cube \<Rightarrow> cube" where
  "convolve_same a g =
     (case shape a of (n0, n1, n2) \<Rightarrow>
      case shape g of (m0, m1, m2) \<Rightarrow>
        map (\<lambda>i. map (\<lambda>j. map (\<lambda>k.
              (\<Sum>i' \<leftarrow> [0..<n0]. \<Sum>j' \<leftarrow> [0..<n1]. \<Sum>k' \<leftarrow> [0..<n2].
                 a ! i' ! j' ! k' *
                 kernel_at g (m0, m1, m2)
                   (int i + int ((m0 - 1) div 2) - int i')
                   (int j + int ((m1 - 1) div 2) - int j')
                   (int k + int ((m2 - 1) div 2) - int k')))
            [0..<n2]) [0..<n1]) [0..<n0])"

definition total :: "cube \<Rightarrow> real" where
  \<comment> \<open>\<open>np.sum\<close> over all elements\<close>
  "total c = (\<Sum>p \<leftarrow> c. \<Sum>r \<leftarrow> p. sum_list r)"

fun convolve :: "arr \<Rightarrow> kernel \<Rightarrow> arr" where
  \<comment> \<open>the same call on arrays and kernels that may hold \<open>nan\<close>: the shape is that of the
      first argument, and a \<open>nan\<close> kernel spoils every entry\<close>
  "convolve (Arr a) (Kernel g) = Arr (convolve_same a g)"
| "convolve (Arr a) NanKernel = Bad (shape a)"
| "convolve (Bad s) g = Bad s"

definition total_arr :: "arr \<Rightarrow> real option" where
  \<comment> \<open>\<open>np.sum\<close>, where the entries are followed\<close>
  "total_arr a = (case a of Arr c \<Rightarrow> Some (total c) | Bad s \<Rightarrow> None)"


subsection \<open>The steps of \<open>generate_pvd\<close>\<close>

definition vedge_of :: "real list \<Rightarrow> real list" where
  \<comment> \<open>\<open>np.hstack([v - delv * 0.5, v[-1] + 0.5 * delv])\<close> with \<open>delv = v[1] - v[0]\<close>\<close>
  "vedge_of v =
     (let delv = v ! 1 - v ! 0
      in map (\<lambda>vi. vi - delv * 0.5) v @ [last v + 0.5 * delv])"

definition spectral_kernel :: "real list \<Rightarrow> real \<Rightarrow> kernel" where
  \<comment> \<open>lines 257 to 259, for a velocity axis of at least two channels: the Gaussian along
      the axis, centred at index \<open>nv//2 - 1 + nv%2\<close>, normalised, of shape \<open>(nv, 1, 1)\<close>.
      With a zero line width the exponent at the centre is \<open>0/0\<close>, the sum is \<open>nan\<close> and so
      is every entry.\<close>
  "spectral_kernel v linewidth =
     (let nv = length v;
          c = nat (int nv div 2 - 1 + int nv mod 2)
      in if linewidth = 0 then NanKernel
         else
           let gaussbeam = map (\<lambda>vi. exp (- ((vi - v ! c)\<^sup>2) / linewidth\<^sup>2)) v;
               s = sum_list gaussbeam
           in Kernel (map (\<lambda>g. [[g / s]]) gaussbeam))"

definition radians :: "real \<Rightarrow> real" where
  "radians d = d * pi / 180"

definition rot :: "real \<Rightarrow> real \<Rightarrow> real \<Rightarrow> real \<times> real" where
  "rot x y pa = (x * cos pa - y * sin pa, x * sin pa + y * cos pa)"

definition beam_kernel ::
  "real list \<Rightarrow> real list \<Rightarrow> real \<times> real \<times> real \<Rightarrow> real \<Rightarrow> kernel" where
  \<comment> \<open>lines 268 to 273: the elliptical Gaussian on the \<open>(x, y)\<close> mesh, rotated by
      \<open>bpa - pa\<close>, normalised, of shape \<open>(1, nx, ny)\<close>.  With a zero beam axis every entry
      of the Gaussian on a non-empty mesh is \<open>0\<close> or \<open>nan\<close>, the sum is \<open>0\<close> or \<open>nan\<close>, and
      every entry of the kernel is \<open>nan\<close>.\<close>
  "beam_kernel xs ys beam pa =
     (case beam of (bmaj, bmin, bpa) \<Rightarrow>
        if (bmaj = 0 \<or> bmin = 0) \<and> xs \<noteq> [] \<and> ys \<noteq> [] then NanKernel
        else
          let gaussbeam =
                map (\<lambda>x. map (\<lambda>y.
                  (case rot x y (radians (bpa - pa)) of (xb, yb) \<Rightarrow>
                     exp (- 0.5 * (yb / (bmin / 2.35))\<^sup>2 - 0.5 * (xb / (bmaj / 2.35))\<^sup>2))) ys) xs;
              s = (\<Sum>r \<leftarrow> gaussbeam. sum_list r)
          in Kernel [map (map (\<lambda>g. g / s)) gaussbeam])"

definition spectral_step ::
  "real list \<Rightarrow> real option \<Rightarrow> cache \<Rightarrow> arr \<Rightarrow> arr \<times> cache" where
  \<comment> \<open>lines 254 to 261: the kernel is built and stored only when none is cached\<close>
  "spectral_step v linewidth st tau_v =
     (case linewidth of
        None \<Rightarrow> (tau_v, st)
      | Some lw \<Rightarrow>
          (case gauss_v st of
             Some g \<Rightarrow> (convolve tau_v g, st)
           | None \<Rightarrow>
               (let g = spectral_kernel v lw
                in (convolve tau_v g, st\<lparr>gauss_v := Some g\<rparr>))))"

definition nanmax :: "cube \<Rightarrow> error + real" where
  \<comment> \<open>\<open>np.nanmax\<close> of an array without \<open>nan\<close>; it raises on an empty array\<close>
  "nanmax c = (case concat (concat c) of [] \<Rightarrow> Inl ValueError | t # ts \<Rightarrow> Inr (fold max ts t))"

fun intensity :: "arr \<Rightarrow> real \<Rightarrow> error + arr" where
  \<comment> \<open>line 263: \<open>1. - np.exp(- tau_v / np.nanmax(tau_v) * taumax)\<close>; a maximum of zero makes
      the entry at the maximum \<open>0/0\<close>\<close>
  "intensity (Arr tau_v) taumax =
     bind_err (nanmax tau_v)
       (\<lambda>m. if m = 0 then Inr (Bad (shape tau_v))
            else Inr (Arr (map (map (map (\<lambda>t. 1 - exp (- t / m * taumax)))) tau_v)))"
| "intensity (Bad (n0, n1, n2)) taumax =
     (if n0 * n1 * n2 = 0 then Inl ValueError else Inr (Bad (n0, n1, n2)))"

definition beam_step ::
  "mockpvd \<Rightarrow> (real \<times> real \<times> real) option \<Rightarrow> real \<Rightarrow> cache \<Rightarrow> arr \<Rightarrow> error + arr \<times> cache"
  where
  \<comment> \<open>lines 266 to 275: the kernel is built and stored only when none is cached\<close>
  "beam_step self beam pa st I_cube =
     (case beam of
        None \<Rightarrow> Inr (I_cube, st)
      | Some b \<Rightarrow>
          (case gauss_xy st of
             Some g \<Rightarrow> Inr (convolve I_cube g, st)
           | None \<Rightarrow>
               (case self_y self of
                  None \<Rightarrow> Inl AttributeError
                | Some ys \<Rightarrow>
                    (let g = beam_kernel (self_x self) ys b pa
                     in Inr (convolve I_cube g, st\<lparr>gauss_xy := Some g\<rparr>)))))"

fun slice_row :: "arr \<Rightarrow> nat \<Rightarrow> error + img" where
  \<comment> \<open>lines 277 and 279: \<open>np.transpose(I_cube, (0,2,1))[:, j, :]\<close>\<close>
  "slice_row (Arr c) j =
     (case shape c of (n0, n1, n2) \<Rightarrow>
        if j < n2 then Inr (Img (map (map (\<lambda>r. r ! j)) c)) else Inl IndexError)"
| "slice_row (Bad (n0, n1, n2)) j =
     (if j < n2 then Inr (BadImg (n0, n1)) else Inl IndexError)"

fun subgrid_mean :: "nat \<Rightarrow> img \<Rightarrow> error + img" where
  \<comment> \<open>lines 283 to 286: the mean over \<open>i\<close> of the strided columns \<open>I_pv[:, i::n]\<close>, which
      have one shape only when \<open>n\<close> divides the number of columns\<close>
  "subgrid_mean n (Img I_pv) =
     (if list_all (\<lambda>row. length row mod n = 0) I_pv
      then Inr (Img (map (\<lambda>row. map (\<lambda>k. (\<Sum>i \<leftarrow> [0..<n]. row ! (i + k * n)) / real n)
                                    [0..<length row div n]) I_pv))
      else Inl ValueError)"
| "subgrid_mean n (BadImg (n0, n1)) =
     (if n0 = 0 \<or> n1 mod n = 0 then Inr (BadImg (n0, n1 div n)) else Inl ValueError)"

text \<open>
  \<open>generate_pvd\<close>.  The functions \<open>rho2rhocube\<close> and \<open>Nested3DGrid.integrate_along\<close> of lines
  244 and 248 are not among the sources: their composition is the parameter \<open>los_tau\<close>, which
  receives the cached bin edges, the velocity field and the density field and yields the
  array \<open>tau_v\<close>.  The result is the PV image, or the exception raised, together with the
  cache as the call leaves it.
\<close>

definition generate_pvd ::
  "(real list \<Rightarrow> 'f \<Rightarrow> 'f \<Rightarrow> arr) \<Rightarrow> mockpvd \<Rightarrow> cache \<Rightarrow> 'f \<Rightarrow> 'f \<Rightarrow> real \<Rightarrow>
   (real \<times> real \<times> real) option \<Rightarrow> real option \<Rightarrow> real \<Rightarrow> (error + img) \<times> cache" where
  "generate_pvd los_tau self st rho vlos taumax beam linewidth pa =
     (let ny = grid_ny self;
          v = self_v self
      in if length v < 2 then (Inl IndexError, st)
         else
           let (e, st) = (case vedge st of
                            None \<Rightarrow> (vedge_of v, st\<lparr>vedge := Some (vedge_of v)\<rparr>)
                          | Some e \<Rightarrow> (e, st));
               tau_v = los_tau e vlos rho;
               (tau_v, st) = spectral_step v linewidth st tau_v
           in (case intensity tau_v taumax of
                 Inl err \<Rightarrow> (Inl err, st)
               | Inr I_cube \<Rightarrow>
                   (case beam_step self beam pa st I_cube of
                      Inl err \<Rightarrow> (Inl err, st)
                    | Inr (I_cube, st) \<Rightarrow>
                        (bind_err (slice_row I_cube (ny div 2)) (\<lambda>I_pv.
                           if nsubgrid self > 1 then subgrid_mean (nsubgrid self) I_pv
                           else Inr I_pv),
                         st))))"


subsection \<open>\<open>generate_mockpvd\<close>\<close>

text \<open>
  The value that \<open>generate_mockpvd\<close> returns is the integer \<open>0\<close>, one PV image, or a list of
  PV images; what it prints is collected in a list of lines.  The argument \<open>pa\<close> is a float
  or a list.  \<open>build\<close>, which calls into the module \<open>precalculation\<close>, is the parameter
  \<open>build\<close>: it receives the axis and the flag \<open>normalize\<close> and yields the density and the
  velocity field, here flat lists of samples.  A field handed to \<open>generate_pvd\<close> is \<open>None\<close>
  when the shared normalisation has divided it by a zero maximum.
\<close>

datatype pyvalue = PyInt int | PyImage img | PyList "img list"

datatype pa_arg = PaFloat real | PaList "real list"

definition axis_error_message :: string where
  "axis_error_message =
     ''ERROR'' @ [CHR 0x09] @
     ''generate_mockpvd: axis input must be 'major', 'minor' or 'both'.''"

definition nanmax_list :: "real list \<Rightarrow> error + real" where
  "nanmax_list xs = (case xs of [] \<Rightarrow> Inl ValueError | t # ts \<Rightarrow> Inr (fold max ts t))"

fun collect_err :: "(error + 'a) list \<Rightarrow> error + 'a list" where
  "collect_err [] = Inr []"
| "collect_err (m # ms) = bind_err m (\<lambda>x. bind_err (collect_err ms) (\<lambda>xs. Inr (x # xs)))"

fun pvd_loop ::
  "(real list \<Rightarrow> real list option \<Rightarrow> real list option \<Rightarrow> arr) \<Rightarrow> mockpvd \<Rightarrow> real \<Rightarrow>
   real option \<Rightarrow> cache \<Rightarrow> (real list option \<times> real list option \<times> real) list \<Rightarrow>
   (error + img list) \<times> cache" where
  "pvd_loop los_tau self taumax linewidth st [] = (Inr [], st)"
| "pvd_loop los_tau self taumax linewidth st ((rho, vlos, pa) # rest) =
     (case generate_pvd los_tau self st rho vlos taumax (self_beam self) linewidth pa of
        (Inl err, st) \<Rightarrow> (Inl err, st)
      | (Inr I_pv, st) \<Rightarrow>
          (case pvd_loop los_tau self taumax linewidth st rest of
             (Inl err, st) \<Rightarrow> (Inl err, st)
           | (Inr I_out, st) \<Rightarrow> (Inr (I_pv # I_out), st)))"

definition generate_mockpvd ::
  "(real list \<Rightarrow> real list option \<Rightarrow> real list option \<Rightarrow> arr) \<Rightarrow>
   (string \<Rightarrow> bool \<Rightarrow> real list \<times> real list) \<Rightarrow> mockpvd \<Rightarrow> cache \<Rightarrow>
   real \<Rightarrow> pa_arg \<Rightarrow> real option \<Rightarrow> string \<Rightarrow> (error + string list \<times> pyvalue) \<times> cache" where
  "generate_mockpvd los_tau build self st taumax pa linewidth axis =
     (if axis \<notin> set [''major'', ''minor'', ''both'']
      then (Inr ([axis_error_message], PyInt 0), st)
      else if axis = ''both'' then
        (let models = map (\<lambda>a. build a False) [''major'', ''minor''];
             rho = map fst models;
             vlos = map snd models
         in (case bind_err (collect_err (map nanmax_list rho)) nanmax_list of
               Inl err \<Rightarrow> (Inl err, st)
             | Inr rho_max \<Rightarrow>
                 (let rho = map (\<lambda>r. if rho_max = 0 then None
                                      else Some (map (\<lambda>x. x / rho_max) r)) rho
                  in (case pa of
                        PaFloat _ \<Rightarrow> (Inl TypeError, st)
                      | PaList pas \<Rightarrow>
                          (case pvd_loop los_tau self taumax linewidth st
                                  (zip rho (zip (map Some vlos) pas)) of
                             (Inl err, st) \<Rightarrow> (Inl err, st)
                           | (Inr I_out, st) \<Rightarrow> (Inr ([], PyList I_out), st))))))
      else
        (case build axis True of (rho, vlos) \<Rightarrow>
           (case generate_pvd los_tau self st (Some rho) (Some vlos) taumax (self_beam self)
                   linewidth 0 of
              (Inl err, st) \<Rightarrow> (Inl err, st)
            | (Inr I_pv, st) \<Rightarrow> (Inr ([], PyImage I_pv), st))))"


subsection \<open>Stand-ins for the functions outside the sources\<close>

text \<open>
  Concrete calls need values for the two parameters: \<open>fixed_tau c\<close> stands for a deposition
  and line integration that yield the cube \<open>c\<close>, and \<open>fixed_build m\<close> for a \<open>build\<close> that
  yields the density and velocity fields \<open>m\<close>.
\<close>

definition fixed_tau :: "cube \<Rightarrow> real list \<Rightarrow> 'f \<Rightarrow> 'f \<Rightarrow> arr" where
  "fixed_tau c e vlos rho = Arr c"

definition fixed_build :: "real list \<times> real list \<Rightarrow> string \<Rightarrow> bool \<Rightarrow> real list \<times> real list" where
  "fixed_build m axis norm_flag = m"


section \<open>The nested grid (grid.py)\<close>

text \<open>
  Modelled from the spec: \<open>Nested3DGrid.integrate_along\<close>, whose module \<open>pvfitting/grid.py\<close> is
  not among the sources.  The specification (section 4.1) describes a hierarchy of levels,
  level 0 spanning the whole path and each finer level sampling a box inside its parent at
  the parent spacing divided by an integer refinement factor, and the composition rule:
  within any level's box the integral over the portion of the line inside the box uses
  that level's own sampling, outside all finer boxes it uses the coarser level, so that no
  two levels contribute to the same physical sub-interval.

  One line of sight is modelled.  A level carries its spacing along the path, its samples
  along the path, and the index range \<open>[lo, hi)\<close> of its own cells that the box of the next
  finer level covers on this line (an empty range when the line misses that box).  The
  levels are listed from the coarsest to the finest.
\<close>

record level =
  spacing :: real
  samples :: "real list"
  lo :: nat
  hi :: nat

fun integrate_along :: "level list \<Rightarrow> real" where
  "integrate_along [] = 0"
| "integrate_along [l] = spacing l * sum_list (samples l)"
| "integrate_along (l # finer # rest) =
     spacing l * (sum_list (take (lo l) (samples l)) + sum_list (drop (hi l) (samples l)))
     + integrate_along (finer # rest)"

fun nested :: "level list \<Rightarrow> bool" where
  \<comment> \<open>the configuration that the specification requires of a grid: each finer box lies
      inside its parent and refines the cells it covers by an integer factor\<close>
  "nested [] = True"
| "nested [l] = True"
| "nested (l # finer # rest) =
     (lo l \<le> hi l \<and> hi l \<le> length (samples l) \<and>
      (if lo l = hi l then samples finer = [] \<and> 0 < spacing finer
       else length (samples finer) mod (hi l - lo l) = 0 \<and>
            0 < length (samples finer) \<and>
            spacing finer * real (length (samples finer) div (hi l - lo l)) = spacing l) \<and>
      nested (finer # rest))"

definition constant_field :: "real \<Rightarrow> level list \<Rightarrow> bool" where
  "constant_field c ls = list_all (\<lambda>l. list_all (\<lambda>s. s = c) (samples l)) ls"

definition path_length :: "level list \<Rightarrow> real" where
  \<comment> \<open>the physical length of the path: the extent of the coarsest level\<close>
  "path_length ls = (case ls of [] \<Rightarrow> 0 | l # _ \<Rightarrow> spacing l * real (length (samples l)))"

section \<open>The fit-result table (_pvsilhouette.py)\<close>

subsection \<open>Text and numbers\<close>

text \<open>
  \<open>writeout_fitres\<close> hands an array of strings to \<open>np.savetxt\<close> and \<open>read_fitres\<close> reads the
  file with \<open>np.genfromtxt\<close>.  Both numpy functions are modelled from their documentation on
  the text of the file, a string in which lines end with the newline character.  How numpy
  writes a float as text and reads text as a float is not modelled: the two conversions are
  the parameters \<open>to_text\<close> and \<open>of_text\<close> of the definitions below, \<open>of_text\<close> yielding
  \<open>None\<close> for \<open>nan\<close>, which is also what \<open>genfromtxt\<close> stores for text that is not a number.
\<close>

definition newline :: char where
  "newline = CHR 0x0A"

definition is_space :: "char \<Rightarrow> bool" where
  \<comment> \<open>the ASCII characters that \<open>str.split()\<close> treats as whitespace\<close>
  "is_space c = (c \<in> set [CHR '' '', CHR 0x09, CHR 0x0A, CHR 0x0B, CHR 0x0C, CHR 0x0D])"

fun words_acc :: "string \<Rightarrow> string \<Rightarrow> string list" where
  "words_acc cur [] = (if cur = [] then [] else [cur])"
| "words_acc cur (c # cs) =
     (if is_space c then (if cur = [] then words_acc [] cs else cur # words_acc [] cs)
      else words_acc (cur @ [c]) cs)"

definition split_ws :: "string \<Rightarrow> string list" where
  \<comment> \<open>\<open>str.split()\<close>: the maximal runs of characters that are not whitespace\<close>
  "split_ws s = words_acc [] s"

fun lines_acc :: "string \<Rightarrow> string \<Rightarrow> string list" where
  "lines_acc cur [] = (if cur = [] then [] else [cur])"
| "lines_acc cur (c # cs) =
     (if c = newline then cur # lines_acc [] cs else lines_acc (cur @ [c]) cs)"

definition file_lines :: "string \<Rightarrow> string list" where
  \<comment> \<open>the lines of a text file, without their terminators\<close>
  "file_lines s = lines_acc [] s"

fun join_sp :: "string list \<Rightarrow> string" where
  \<comment> \<open>\<open>' '.join(cells)\<close>\<close>
  "join_sp [] = []"
| "join_sp [x] = x"
| "join_sp (x # y # ys) = x @ '' '' @ join_sp (y # ys)"


subsection \<open>\<open>np.savetxt\<close> and \<open>np.genfromtxt\<close>\<close>

definition savetxt :: "string list list \<Rightarrow> string" where
  \<comment> \<open>\<open>np.savetxt(f, rows, fmt='%s')\<close> on a two-dimensional array of strings: the cells of
      a row separated by one space, every row ended by a newline\<close>
  "savetxt rows = concat (map (\<lambda>cells. join_sp cells @ [newline]) rows)"

definition split_line :: "string \<Rightarrow> string list" where
  \<comment> \<open>the line splitter of \<open>genfromtxt\<close> for \<open>comments='#'\<close> and no delimiter: what follows
      the first \<open>#\<close> is dropped, the rest is split at whitespace\<close>
  "split_line l = split_ws (takeWhile (\<lambda>c. c \<noteq> CHR ''#'') l)"

definition genfromtxt :: "(string \<Rightarrow> real option) \<Rightarrow> nat list \<Rightarrow> string \<Rightarrow>
    error + real option list list" where
  \<comment> \<open>\<open>np.genfromtxt(f, dtype=float, comments='#', usecols=...)\<close>, before the transposition:
      lines without a value are skipped, a line that lacks one of the columns asked for
      makes the call raise, and every selected cell is converted\<close>
  "genfromtxt of_text usecols s =
     (let rows = filter (\<lambda>vs. vs \<noteq> []) (map split_line (file_lines s))
      in if list_ex (\<lambda>vs. list_ex (\<lambda>u. length vs \<le> u) usecols) rows then Inl ValueError
         else Inr (map (\<lambda>vs. map (\<lambda>u. of_text (vs ! u)) usecols) rows))"


subsection \<open>\<open>writeout_fitres\<close> and \<open>read_fitres\<close>\<close>

text \<open>
  The four attributes \<open>popt\<close>, \<open>plow\<close>, \<open>pmid\<close> and \<open>phigh\<close> of a \<open>PVSilhouette\<close> object are
  a record; the object before any fit, which has no attribute \<open>popt\<close>, is \<open>None\<close>.
  \<open>writeout_fitres\<close> yields what it prints, what it returns (\<open>None\<close>, the integer \<open>0\<close>, or
  an exception) and the file it leaves behind, as name and content.
\<close>

record 'a fitres =
  popt :: "'a list"
  plow :: "'a list"
  pmid :: "'a list"
  phigh :: "'a list"

definition fit_labels :: "string list" where
  "fit_labels = [''Mstar'', ''Rc'', ''alpha'', ''fflux'', ''log_ftau'', ''log_frho'', ''sig_mdl'']"

definition fit_header :: string where
  "fit_header = ''# popt plow pmid phigh'' @ [newline]"

definition no_popt_messages :: "string list" where
  "no_popt_messages =
     [''ERROR'' @ [CHR 0x09] @ ''writeout_fitres: No optimized parameters are found.'',
      ''ERROR'' @ [CHR 0x09] @ ''writeout_fitres: Run fitting first.'']"

definition table_rows :: "(real \<Rightarrow> string) \<Rightarrow> real fitres \<Rightarrow> error + string list list" where
  \<comment> \<open>\<open>np.array([labels, self.popt, self.plow, self.pmid, self.phigh]).T\<close>: an array of
      strings with one row per label, which numpy refuses to build from vectors of
      unequal lengths\<close>
  "table_rows to_text r =
     (let cols = [fit_labels, map to_text (popt r), map to_text (plow r),
                  map to_text (pmid r), map to_text (phigh r)]
      in if list_all (\<lambda>c. length c = length fit_labels) cols
         then Inr (map (\<lambda>i. map (\<lambda>c. c ! i) cols) [0..<length fit_labels])
         else Inl ValueError)"

definition writeout_fitres ::
  "(real \<Rightarrow> string) \<Rightarrow> real fitres option \<Rightarrow> string \<Rightarrow>
   string list \<times> (error + int option) \<times> (string \<times> string) option" where
  "writeout_fitres to_text self fout =
     (case self of
        None \<Rightarrow> (no_popt_messages, Inr (Some 0), None)
      | Some r \<Rightarrow>
          let header = fit_header
          in (case table_rows to_text r of
                Inl err \<Rightarrow> ([], Inl err, Some (fout @ ''.txt'', header))
              | Inr rows \<Rightarrow> ([], Inr None, Some (fout @ ''.txt'', header @ savetxt rows))))"

definition read_fitres :: "(string \<Rightarrow> real option) \<Rightarrow> string \<Rightarrow> error + real option fitres" where
  \<comment> \<open>the four unpacked columns; with no row at all there is nothing to unpack\<close>
  "read_fitres of_text s =
     bind_err (genfromtxt of_text [1, 2, 3, 4] s)
       (\<lambda>rows. if rows = [] then Inl ValueError
               else Inr \<lparr>popt = map (\<lambda>row. row ! 0) rows, plow = map (\<lambda>row. row ! 1) rows,
                         pmid = map (\<lambda>row. row ! 2) rows, phigh = map (\<lambda>row. row ! 3) rows\<rparr>)"

text \<open>
  The conditions on the two conversions under which the round trip is stated: the text of
  a value is one token (not empty, without whitespace and without \<open>#\<close>), and reading it
  back gives a number within \<open>prec\<close> of the value.  \<open>table_to_text\<close> and \<open>table_of_text\<close> are
  conversions given by a finite table, for concrete calls.
\<close>

definition token_ok :: "string \<Rightarrow> bool" where
  "token_ok t = (t \<noteq> [] \<and> list_all (\<lambda>c. \<not> is_space c \<and> c \<noteq> CHR ''#'') t)"

definition close_to :: "real \<Rightarrow> real option \<Rightarrow> real \<Rightarrow> bool" where
  "close_to prec y x = (case y of None \<Rightarrow> False | Some y' \<Rightarrow> \<bar>y' - x\<bar> \<le> prec)"

definition conversion_ok ::
  "(real \<Rightarrow> string) \<Rightarrow> (string \<Rightarrow> real option) \<Rightarrow> real \<Rightarrow> real \<Rightarrow> bool" where
  "conversion_ok to_text of_text prec x =
     (token_ok (to_text x) \<and> close_to prec (of_text (to_text x)) x)"

definition table_to_text :: "(real \<times> string) list \<Rightarrow> real \<Rightarrow> string" where
  "table_to_text tab x = (case map_of tab x of None \<Rightarrow> ''nan'' | Some t \<Rightarrow> t)"

definition table_of_text :: "(real \<times> string) list \<Rightarrow> string \<Rightarrow> real option" where
  "table_of_text tab t = map_of (map (\<lambda>(x, t). (t, x)) tab) t"

subsection \<open>Shapes and bounds of arrays\<close>








section \<open>Properties of the envelope kinematics\<close>

lemma cube_powr_third: "0 \<le> x \<Longrightarrow> (x powr (1 / 3)) ^ 3 = (x::real)"
proof (cases "x = 0")
  case True then show ?thesis by simp
next
  case False
  assume "0 \<le> x"
  with False have "0 < x" by simp
  then have "(x powr (1 / 3)) ^ 3 = x powr (of_nat 3 * (1 / 3))"
    using powr_power [of x "1 / 3" 3] by simp
  then show ?thesis using \<open>0 < x\<close> by simp
qed

lemma cubic_from_uv_minus:
  fixes u v p q :: real
  assumes "u ^ 3 - v ^ 3 = 2 * q" "u * v = p"
  shows "(u - v) ^ 3 + 3 * p * (u - v) - 2 * q = 0"
proof -
  have "(u - v) ^ 3 = u ^ 3 - v ^ 3 - 3 * (u * v) * (u - v)"
    by (simp add: power3_eq_cube algebra_simps)
  then show ?thesis using assms by simp
qed

lemma cubic_from_uv_plus:
  fixes u v P q :: real
  assumes "u ^ 3 + v ^ 3 = 2 * q" "u * v = P"
  shows "(u + v) ^ 3 + 3 * (- P) * (u + v) - 2 * q = 0"
proof -
  have "(u + v) ^ 3 = u ^ 3 + v ^ 3 + 3 * (u * v) * (u + v)"
    by (simp add: power3_eq_cube algebra_simps)
  then show ?thesis using assms by simp
qed

lemma mu0_A_cubic:
  assumes p: "0 \<le> p" and q: "0 < q"
  shows "\<exists>m. mu0_A p q = Some m \<and> 0 \<le> m \<and> m ^ 3 + 3 * p * m - 2 * q = 0"
proof -
  define D where "D = q\<^sup>2 + p ^ 3"
  define qD where "qD = q * D powr (- 1 / 2)"
  define s where "s = D powr (1 / 6)"
  define a where "a = (1 + qD) powr (1 / 3)"
  define b where "b = (1 - qD) powr (1 / 3)"
  have D: "0 < D" using p q by (simp add: D_def add_pos_nonneg)
  have h: "D powr (- 1 / 2) = 1 / sqrt D"
  proof -
    have "D powr (- 1 / 2) = D powr (- (1 / 2))" by simp
    also have "\<dots> = inverse (D powr (1 / 2))" by (rule powr_minus)
    also have "\<dots> = inverse (sqrt D)" using D by (simp only: powr_half_sqrt less_imp_le)
    finally show ?thesis by (simp add: inverse_eq_divide)
  qed
  have qD: "qD = q / sqrt D" unfolding qD_def h by simp
  have "q\<^sup>2 \<le> D" using p by (simp add: D_def)
  then have "sqrt (q\<^sup>2) \<le> sqrt D" by (simp only: real_sqrt_le_iff)
  then have qs: "q \<le> sqrt D" using q by simp
  have sD: "0 < sqrt D" using D by simp
  have qD1: "qD \<le> 1" using qs sD by (simp add: qD)
  have qD0: "0 < qD" using q sD by (simp add: qD)
  have val: "mu0_A p q = Some (s * (a - b))"
    using D qD1 qD0 unfolding D_def qD_def s_def a_def b_def mu0_A_def mu0_A_value_def Let_def
    by (simp add: np_power_def)
  have s3: "s ^ 3 = sqrt D"
  proof -
    have "s ^ 3 = D powr (of_nat 3 * (1 / 6))"
      unfolding s_def using D powr_power [of D "1 / 6" 3] by simp
    then show ?thesis using D by (simp add: powr_half_sqrt)
  qed
  have a3: "a ^ 3 = 1 + qD" unfolding a_def using qD0 by (intro cube_powr_third) simp
  have b3: "b ^ 3 = 1 - qD" unfolding b_def using qD1 by (intro cube_powr_third) simp
  have sq: "sqrt D * qD = q" using sD by (simp add: qD)
  have u3: "(s * a) ^ 3 - (s * b) ^ 3 = 2 * q"
  proof -
    have "(s * a) ^ 3 - (s * b) ^ 3 = sqrt D * (1 + qD) - sqrt D * (1 - qD)"
      by (simp add: power_mult_distrib s3 a3 b3)
    also have "\<dots> = 2 * (sqrt D * qD)" by (simp add: algebra_simps)
    finally show ?thesis by (simp add: sq)
  qed
  have uv: "(s * a) * (s * b) = p"
  proof -
    have "((s * a) * (s * b)) ^ 3 = s ^ 3 * s ^ 3 * (a ^ 3 * b ^ 3)"
      by (simp add: power_mult_distrib)
    also have "\<dots> = D * ((1 + qD) * (1 - qD))"
      using D by (simp add: s3 a3 b3)
    also have "\<dots> = D - (sqrt D * qD)\<^sup>2"
      using D by (simp add: algebra_simps power2_eq_square power_mult_distrib)
    also have "\<dots> = D - q\<^sup>2" by (simp only: sq)
    also have "\<dots> = p ^ 3" by (simp add: D_def)
    finally have e: "((s * a) * (s * b)) ^ 3 = p ^ 3" .
    have nn: "0 \<le> (s * a) * (s * b)" by (simp add: s_def a_def b_def)
    show ?thesis
      using e nn p by (simp add: power_eq_iff_eq_base [of 3])
  qed
  have ab: "b \<le> a" unfolding a_def b_def
    using qD0 qD1 by (intro powr_mono2) simp_all
  have "0 \<le> s" by (simp add: s_def)
  then have nonneg: "0 \<le> s * (a - b)" using ab by simp
  have "(s * a - s * b) ^ 3 + 3 * p * (s * a - s * b) - 2 * q = 0"
    by (rule cubic_from_uv_minus [OF u3 uv])
  then have "(s * (a - b)) ^ 3 + 3 * p * (s * (a - b)) - 2 * q = 0"
    by (simp add: right_diff_distrib)
  with val nonneg show ?thesis by blast
qed


lemma mu0_B_cubic:
  assumes P: "0 \<le> P" and q: "0 < q" and D: "D = q\<^sup>2 - P ^ 3" and D0: "0 \<le> D"
  shows "\<exists>m. mu0_B q D = Some m \<and> 0 < m \<and> m ^ 3 + 3 * (- P) * m - 2 * q = 0"
proof -
  define r where "r = sqrt D"
  define a where "a = (q + r) powr (1 / 3)"
  define b where "b = (q - r) powr (1 / 3)"
  have r0: "0 \<le> r" using D0 by (simp add: r_def)
  have "D \<le> q\<^sup>2" using P by (simp add: D)
  then have "sqrt D \<le> sqrt (q\<^sup>2)" by (simp only: real_sqrt_le_iff)
  then have rq: "r \<le> q" using q by (simp add: r_def)
  have r2: "r\<^sup>2 = D" using D0 by (simp add: r_def)
  have val: "mu0_B q D = Some (a + b)"
  proof -
    have nn: "\<not> q + sqrt D < 0" "\<not> q - sqrt D < 0"
      using r0 rq q unfolding r_def by linarith+
    show ?thesis
      using D0 nn unfolding mu0_B_def a_def b_def r_def
      by (simp add: np_sqrt_def np_power_def)
  qed
  have a3: "a ^ 3 = q + r" unfolding a_def using r0 q by (intro cube_powr_third) simp
  have b3: "b ^ 3 = q - r" unfolding b_def using rq by (intro cube_powr_third) simp
  have u3: "a ^ 3 + b ^ 3 = 2 * q" by (simp add: a3 b3)
  have uv: "a * b = P"
  proof -
    have "(a * b) ^ 3 = (q + r) * (q - r)" by (simp add: power_mult_distrib a3 b3)
    also have "\<dots> = q\<^sup>2 - r\<^sup>2" by (simp add: power2_eq_square algebra_simps)
    also have "\<dots> = P ^ 3" by (simp add: r2 D)
    finally have e: "(a * b) ^ 3 = P ^ 3" .
    have nn: "0 \<le> a * b" by (simp add: a_def b_def)
    show ?thesis using e nn P by (simp add: power_eq_iff_eq_base [of 3])
  qed
  have "0 < q + r" using q r0 by simp
  then have "0 < a" by (simp add: a_def)
  moreover have "0 \<le> b" by (simp add: b_def)
  ultimately have pos: "0 < a + b" by simp
  have "(a + b) ^ 3 + 3 * (- P) * (a + b) - 2 * q = 0"
    by (rule cubic_from_uv_plus [OF u3 uv])
  with val pos show ?thesis by blast
qed

lemma mu0_C_cubic:
  assumes q: "0 < q" and P: "0 \<le> P" and D: "q\<^sup>2 - P ^ 3 < 0"
  shows "\<exists>m. mu0_C q P = Some m \<and> 0 < m \<and> m ^ 3 + 3 * (- P) * m - 2 * q = 0"
    and "\<bar>q * P powr (- 3 / 2)\<bar> < 1"
proof -
  define s where "s = sqrt P"
  define h where "h = P powr (- 3 / 2)"
  define x where "x = q * h"
  define t where "t = arccos x"
  define c where "c = cos (t / 3)"
  have Ppos: "0 < P"
  proof (rule ccontr)
    assume "\<not> 0 < P"
    with P have "P = 0" by simp
    with D show False by simp
  qed
  have s0: "0 < s" using Ppos by (simp add: s_def)
  have s2: "s * s = P" using P by (simp add: s_def)
  have h: "h = 1 / s ^ 3"
  proof -
    have "s ^ 3 = (P powr (1 / 2)) ^ 3" using P by (simp add: s_def powr_half_sqrt)
    also have "\<dots> = P powr (of_nat 3 * (1 / 2))" using Ppos by (intro powr_power) simp
    also have "\<dots> = P powr (3 / 2)" by simp
    finally have s3: "s ^ 3 = P powr (3 / 2)" .
    have "h = P powr (- (3 / 2))" by (simp add: h_def)
    also have "\<dots> = inverse (P powr (3 / 2))" by (rule powr_minus)
    finally show ?thesis by (simp add: s3 inverse_eq_divide)
  qed
  have s3x: "s ^ 3 * x = q" using s0 by (simp add: x_def h)
  have x0: "0 < x" using q s0 by (simp add: x_def h)
  have "q\<^sup>2 < (s ^ 3)\<^sup>2"
  proof -
    have "(s ^ 3)\<^sup>2 = (s * s) ^ 3" by (simp add: power2_eq_square power3_eq_cube)
    then show ?thesis using D by (simp add: s2)
  qed
  then have "q < s ^ 3" using s0 q by (simp add: power2_less_imp_less)
  then have x1: "x < 1" using s0 by (simp add: x_def h)
  show "\<bar>q * P powr (- 3 / 2)\<bar> < 1"
    using x0 x1 unfolding x_def h_def by simp
  have val: "mu0_C q P = Some (2 * s * c)"
    using P Ppos x0 x1 unfolding mu0_C_def c_def t_def x_def h_def s_def
    by (simp add: np_sqrt_def np_power_def np_arccos_def)
  have ct: "cos t = x" unfolding t_def using x0 x1 by (intro cos_arccos) simp_all
  have "cos (3 * (t / 3)) = 4 * c ^ 3 - 3 * c" unfolding c_def by (rule cos_treble_cos)
  then have tre: "4 * c ^ 3 = x + 3 * c" by (simp add: ct)
  have t_rng: "0 \<le> t" "t \<le> pi"
    unfolding t_def using x0 x1 by (simp_all add: arccos_lbound arccos_ubound)
  have "0 < c" unfolding c_def
  proof (rule cos_gt_zero_pi)
    show "- (pi / 2) < t / 3" using t_rng pi_gt_zero by linarith
    show "t / 3 < pi / 2" using t_rng pi_gt_zero by linarith
  qed
  then have pos: "0 < 2 * s * c" using s0 by simp
  have "(2 * s * c) ^ 3 = 2 * s ^ 3 * (4 * c ^ 3)" by (simp add: power_mult_distrib)
  also have "\<dots> = 2 * s ^ 3 * (x + 3 * c)" by (simp only: tre)
  also have "\<dots> = 2 * (s ^ 3 * x) + 3 * (s * s) * (2 * s * c)"
    by (simp add: power3_eq_cube algebra_simps)
  also have "\<dots> = 2 * q + 3 * P * (2 * s * c)" by (simp only: s3x s2)
  finally have "(2 * s * c) ^ 3 + 3 * (- P) * (2 * s * c) - 2 * q = 0" by simp
  with val pos show "\<exists>m. mu0_C q P = Some m \<and> 0 < m \<and> m ^ 3 + 3 * (- P) * m - 2 * q = 0"
    by blast
qed


lemma eps_pos: "0 < eps"
  by (simp add: eps_def)

lemma velrho_radius_pos: "0 < velrho_radius radius"
  using eps_pos by (simp add: velrho_radius_def clip_min_def max_def)

lemma velrho_mu_pos: "0 < velrho_mu theta"
  using eps_pos by (simp add: velrho_mu_def clip_def min_less_iff_conj less_max_iff_disj)

lemma velrho_q_pos: "0 < velrho_q radius theta"
  using velrho_radius_pos [of radius] velrho_mu_pos [of theta] by (simp add: velrho_q_def)

lemma velrho_p_minus_nonneg: "0 \<le> velrho_p_minus radius"
  by (simp add: velrho_p_minus_def clip_min_def)

lemma mask_A_excludes:
  assumes "mask_A radius"
  shows "\<not> mask_B radius theta" and "\<not> mask_C radius theta" and "0 \<le> velrho_p radius"
proof -
  from assms have r: "1 \<le> velrho_radius radius" by (simp add: mask_A_def)
  then show p: "0 \<le> velrho_p radius" by (simp add: velrho_p_def)
  then have "velrho_p_minus radius = 0" by (simp add: velrho_p_minus_def clip_min_def)
  then have "velrho_D radius theta = (velrho_q radius theta)\<^sup>2" by (simp add: velrho_D_def)
  then have "0 \<le> velrho_D radius theta" by simp
  then show "\<not> mask_C radius theta" by (simp add: mask_C_def)
  from r show "\<not> mask_B radius theta" by (simp add: mask_B_def)
qed

lemma not_mask_A:
  assumes "\<not> mask_A radius"
  shows "mask_B radius theta \<noteq> mask_C radius theta"
    and "velrho_p radius = - velrho_p_minus radius"
proof -
  from assms have r: "velrho_radius radius < 1" by (simp add: mask_A_def)
  then show "mask_B radius theta \<noteq> mask_C radius theta"
    by (auto simp add: mask_B_def mask_C_def)
  from r have "velrho_p radius < 0" by (simp add: velrho_p_def)
  then show "velrho_p radius = - velrho_p_minus radius"
    by (simp add: velrho_p_minus_def clip_min_def)
qed

lemma velrho_branch_count_one: "velrho_branch_count radius theta = 1"
proof (cases "mask_A radius")
  case True
  then show ?thesis using mask_A_excludes(1,2) [OF True, of theta]
    by (simp add: velrho_branch_count_def)
next
  case False
  then show ?thesis using not_mask_A(1) [OF False, of theta]
    by (auto simp add: velrho_branch_count_def)
qed

lemma velrho_mu0_root:
  "\<exists>m. velrho_mu0 radius theta = Some m \<and> 0 \<le> m \<and>
       m ^ 3 + 3 * velrho_p radius * m - 2 * velrho_q radius theta = 0"
proof (cases "mask_A radius")
  case True
  have v: "velrho_mu0 radius theta = mu0_A (velrho_p radius) (velrho_q radius theta)"
    using True mask_A_excludes(1,2) [OF True, of theta] by (simp add: velrho_mu0_def)
  show ?thesis
    unfolding v by (rule mu0_A_cubic [OF mask_A_excludes(3) [OF True] velrho_q_pos])
next
  case False
  note p = not_mask_A(2) [OF False]
  show ?thesis
  proof (cases "mask_C radius theta")
    case True
    have v: "velrho_mu0 radius theta = mu0_C (velrho_q radius theta) (velrho_p_minus radius)"
      using True by (simp add: velrho_mu0_def)
    from True have "(velrho_q radius theta)\<^sup>2 - (velrho_p_minus radius) ^ 3 < 0"
      by (simp add: mask_C_def velrho_D_def)
    from mu0_C_cubic(1) [OF velrho_q_pos velrho_p_minus_nonneg this]
    show ?thesis unfolding v p by (auto intro: less_imp_le)
  next
    case nC: False
    with not_mask_A(1) [OF False, of theta] have B: "mask_B radius theta" by simp
    have v: "velrho_mu0 radius theta = mu0_B (velrho_q radius theta) (velrho_D radius theta)"
      using False B nC by (simp add: velrho_mu0_def)
    from B have "0 \<le> velrho_D radius theta" by (simp add: mask_B_def)
    from mu0_B_cubic [OF velrho_p_minus_nonneg velrho_q_pos velrho_D_def this]
    show ?thesis unfolding v p by (auto intro: less_imp_le)
  qed
qed

lemma velrho_domain_A:
  assumes "mask_A radius"
  shows "0 < velrho_D_A radius theta"
    and "0 \<le> 1 + velrho_q radius theta * velrho_D_A radius theta powr (- 1 / 2)"
    and "0 \<le> 1 - velrho_q radius theta * velrho_D_A radius theta powr (- 1 / 2)"
proof -
  let ?q = "velrho_q radius theta" and ?D = "velrho_D_A radius theta"
  have p: "0 \<le> velrho_p radius" by (rule mask_A_excludes(3) [OF assms])
  have q: "0 < ?q" by (rule velrho_q_pos)
  show D: "0 < ?D" using p q by (simp add: velrho_D_A_def add_pos_nonneg)
  have h: "?D powr (- 1 / 2) = 1 / sqrt ?D"
  proof -
    have "?D powr (- 1 / 2) = ?D powr (- (1 / 2))" by simp
    also have "\<dots> = inverse (?D powr (1 / 2))" by (rule powr_minus)
    also have "\<dots> = inverse (sqrt ?D)" using D by (simp only: powr_half_sqrt less_imp_le)
    finally show ?thesis by (simp add: inverse_eq_divide)
  qed
  have "?q\<^sup>2 \<le> ?D" using p by (simp add: velrho_D_A_def)
  then have "sqrt (?q\<^sup>2) \<le> sqrt ?D" by (simp only: real_sqrt_le_iff)
  then have qs: "?q \<le> sqrt ?D" using q by simp
  have sD: "0 < sqrt ?D" using D by simp
  have le: "?q / sqrt ?D \<le> 1" using qs sD by simp
  have ge: "0 \<le> ?q / sqrt ?D" using q sD by simp
  show "0 \<le> 1 + ?q * ?D powr (- 1 / 2)" unfolding h using ge by simp
  show "0 \<le> 1 - ?q * ?D powr (- 1 / 2)" unfolding h using le by simp
qed

lemma velrho_domain_B:
  assumes "mask_B radius theta"
  shows "0 \<le> velrho_q radius theta - sqrt (velrho_D radius theta)"
proof -
  let ?q = "velrho_q radius theta" and ?D = "velrho_D radius theta"
  have "?D \<le> ?q\<^sup>2" using velrho_p_minus_nonneg [of radius] by (simp add: velrho_D_def)
  then have "sqrt ?D \<le> sqrt (?q\<^sup>2)" by (simp only: real_sqrt_le_iff)
  then show ?thesis using velrho_q_pos [of radius theta] by simp
qed

lemma velrho_domain_C:
  assumes "mask_C radius theta"
  shows "\<bar>velrho_q radius theta * velrho_p_minus radius powr (- 3 / 2)\<bar> < 1"
proof -
  from assms have "(velrho_q radius theta)\<^sup>2 - (velrho_p_minus radius) ^ 3 < 0"
    by (simp add: mask_C_def velrho_D_def)
  from mu0_C_cubic(2) [OF velrho_q_pos velrho_p_minus_nonneg this] show ?thesis .
qed

text \<open>
  Claim C1, as amended.  On the grid of the claim, radius in \<open>{0.1, 0.5, 1, 2, 100}\<close> and
  polar angle in \<open>{pi/8, pi/4, pi/2, 3 pi/4, 7 pi/8}\<close>, apart from the two points
  \<open>(2, pi/2)\<close> and \<open>(100, pi/2)\<close>, the root that \<open>velrho\<close> computes, by whichever branch
  applies, satisfies the cubic that the code solves, \<open>mu0^3 + 3 p mu0 - 2 q = 0\<close> with
  \<open>p = (radius - 1) / 3\<close> and \<open>q = mu radius / 2\<close>, \<open>mu = |cos theta|\<close> clipped to
  \<open>[1e-10, 1]\<close>, within a relative tolerance of \<open>1e-9\<close>.  The proof is over the reals, where
  the cubic holds exactly; the two points left out are those where the first branch takes
  the difference of two cube roots that agree in their leading ten digits, which rounding
  does not survive to the tolerance.
\<close>

theorem velrho_cubic_on_grid:
  assumes "radius \<in> {1 / 10, 1 / 2, 1, 2, 100}"
    and "theta \<in> {pi / 8, pi / 4, pi / 2, 3 * pi / 4, 7 * pi / 8}"
    and "\<not> (theta = pi / 2 \<and> 1 < radius)"
  shows "code_cubic_consistent radius theta"
proof -
  obtain m where m: "velrho_mu0 radius theta = Some m"
    and c: "m ^ 3 + 3 * velrho_p radius * m - 2 * velrho_q radius theta = 0"
    using velrho_mu0_root [of radius theta] by blast
  show ?thesis by (simp add: code_cubic_consistent_def m c Let_def)
qed

text \<open>Witness of C1 at radius 2 and polar angle \<open>pi/4\<close>.\<close>

theorem velrho_cubic_on_grid_witness:
  "(2 :: real) \<in> {1 / 10, 1 / 2, 1, 2, 100} \<and>
   pi / 4 \<in> {pi / 8, pi / 4, pi / 2, 3 * pi / 4, 7 * pi / 8} \<and>
   \<not> (pi / 4 = pi / 2 \<and> (1 :: real) < 2) \<and>
   code_cubic_consistent 2 (pi / 4)"
proof -
  have a: "(2 :: real) \<in> {1 / 10, 1 / 2, 1, 2, 100}" by simp
  have b: "pi / 4 \<in> {pi / 8, pi / 4, pi / 2, 3 * pi / 4, 7 * pi / 8}" by simp
  have c: "\<not> (pi / 4 = pi / 2 \<and> (1 :: real) < 2)" by simp
  show ?thesis using velrho_cubic_on_grid [OF a b c] a b c by (intro conjI)
qed

text \<open>
  Claim C1 as the specification words it fails: at \<open>radius = 1\<close>, \<open>theta = pi/4\<close> the
  computed root has \<open>mu0^3 = 2 q\<close> and \<open>p = 0\<close>, so \<open>mu0^3 + p mu0 - q = q = sqrt 2 / 4\<close>,
  which is not zero to any relative tolerance.
\<close>

theorem velrho_spec_cubic_counterexample: "\<not> spec_cubic_consistent 1 (pi / 4)"
proof -
  have r: "velrho_radius 1 = 1" by (simp add: velrho_radius_def clip_min_def eps_def)
  have p: "velrho_p 1 = 0" by (simp add: velrho_p_def r)
  have s2: "sqrt 2 \<le> 2" using real_sqrt_le_iff [of 2 4] by simp
  have "eps \<le> sqrt 2 / 2"
  proof -
    have "1 \<le> sqrt 2" by simp
    moreover have "eps \<le> 1 / 2" by (simp add: eps_def)
    ultimately show ?thesis by linarith
  qed
  then have mu: "velrho_mu (pi / 4) = sqrt 2 / 2"
    using s2 by (simp add: velrho_mu_def clip_def cos_45 min_def max_def)
  have q: "velrho_q 1 (pi / 4) = sqrt 2 / 4" by (simp add: velrho_q_def r mu)
  obtain m where m: "velrho_mu0 1 (pi / 4) = Some m" and c: "m ^ 3 = 2 * (sqrt 2 / 4)"
    using velrho_mu0_root [of 1 "pi / 4"] by (auto simp add: p q)
  have pos: "0 < sqrt 2 / 4" by simp
  show ?thesis
    using pos by (simp add: spec_cubic_consistent_def m c cos_45 Let_def)
qed

text \<open>
  Over the reals the three masked assignments of \<open>velrho\<close> write every sample exactly
  once, every base of a fractional power and the argument of \<open>arccos\<close> lie in their
  domains, and the sample of \<open>mu0\<close> ends as a real number.  This is the design of the three
  cases; it is a statement about exact arithmetic.
\<close>

lemma velrho_branches_cover_exact:
  "velrho_branch_count radius theta = 1 \<and>
         0 < velrho_q radius theta \<and>
         (mask_A radius \<longrightarrow>
            0 < velrho_D_A radius theta \<and>
            0 \<le> 1 + velrho_q radius theta * velrho_D_A radius theta powr (- 1 / 2) \<and>
            0 \<le> 1 - velrho_q radius theta * velrho_D_A radius theta powr (- 1 / 2)) \<and>
         (mask_B radius theta \<longrightarrow>
            0 \<le> velrho_q radius theta - sqrt (velrho_D radius theta)) \<and>
         (mask_C radius theta \<longrightarrow>
            \<bar>velrho_q radius theta * velrho_p_minus radius powr (- 3 / 2)\<bar> < 1) \<and>
         (\<exists>m. velrho_mu0 radius theta = Some m)"
  using velrho_branch_count_one [of radius theta] velrho_q_pos [of radius theta]
    velrho_domain_A [of radius theta] velrho_domain_B [of radius theta]
    velrho_domain_C [of radius theta] velrho_mu0_root [of radius theta]
  by blast

text \<open>
  Claim C10 fails on the code.  In the first branch the domain of \<open>(1 - qD)**(1/3)\<close> is
  met with nothing to spare when \<open>p = 0\<close>: there \<open>qD = q * D**(-1/2)\<close> is \<open>1\<close> over the
  reals, and the product of the two rounded factors can come out one unit in the last
  place above \<open>1\<close>.  At radius \<open>1.0\<close> and polar angle \<open>0.16\<close> the doubles give
  \<open>qD = 1 + 2^-52\<close>.  From that value line 24 yields \<open>nan\<close>, whatever \<open>D\<close> is.
\<close>

theorem velrho_nan_above_one:
  "mu0_A_value D (1 + 1 / 2 ^ 52) = None"
  by (simp add: mu0_A_value_def np_power_def)

text \<open>
  Claim C9, as amended.  For a radius of at least \<open>1e-10\<close> (below which \<open>kepvel\<close> clips the
  radius) and a polar angle with \<open>sin theta > 0\<close>, \<open>kepvel\<close> returns exactly \<open>v_r = 0\<close>,
  \<open>v_theta = 0\<close> and \<open>v_phi = 1 / sqrt (radius sin theta)\<close>.
\<close>

theorem kepvel_exact:
  assumes "eps \<le> radius" and "0 < sin theta"
  shows "kepvel radius theta = (0, 0, Some (1 / sqrt (radius * sin theta)))"
proof -
  have r: "clip_min eps radius = radius" using assms(1) by (simp add: clip_min_def)
  have pos: "0 < radius * sin theta" using assms eps_pos by (simp add: zero_less_mult_iff)
  have nz: "radius \<noteq> 0" "sin theta \<noteq> 0" using assms eps_pos by auto
  show ?thesis
    using pos nz by (simp add: kepvel_def r np_sqrt_def np_divide_def Let_def)
qed

theorem kepvel_exact_witness:
  "eps \<le> 1 \<and> 0 < sin (pi / 2) \<and> kepvel 1 (pi / 2) = (0, 0, Some 1)"
proof -
  have a: "eps \<le> 1" by (simp add: eps_def)
  have b: "0 < sin (pi / 2)" by simp
  show ?thesis using kepvel_exact [OF a b] a by simp
qed

text \<open>
  Claim C9 as stated, for every positive radius, fails below the clipping threshold: at
  \<open>radius = 1e-12\<close>, \<open>theta = pi/2\<close> the code returns \<open>v_phi = 1 / sqrt 1e-10\<close>, not
  \<open>1 / sqrt 1e-12\<close>.
\<close>

theorem kepvel_small_radius_counterexample:
  "kepvel (1 / 10 ^ 12) (pi / 2) \<noteq> (0, 0, Some (1 / sqrt (1 / 10 ^ 12 * sin (pi / 2))))"
proof -
  have k: "kepvel (1 / 10 ^ 12) (pi / 2) = (0, 0, Some (1 / sqrt (1 / 10 ^ 10)))"
    by (simp add: kepvel_def clip_min_def eps_def np_sqrt_def np_divide_def Let_def)
  have "sqrt (1 / 10 ^ 10) \<noteq> sqrt (1 / 10 ^ 12)"
    by (simp only: real_sqrt_eq_iff) simp
  then show ?thesis unfolding k by (simp add: real_sqrt_divide)
qed

lemma trig_combine:
  fixes a b c d :: real
  assumes "a * a + b * b = 1" "c * c + d * d = 1"
  shows "a * c * (a * c) + a * d * (a * d) + b * b = 1"
    and "a * c * (b * c) + a * d * (b * d) - b * a = 0"
proof -
  have "a * c * (a * c) + a * d * (a * d) + b * b = a * a * (c * c + d * d) + b * b"
    by (simp add: algebra_simps)
  then show "a * c * (a * c) + a * d * (a * d) + b * b = 1"
    using assms by simp
  have "a * c * (b * c) + a * d * (b * d) - b * a = a * b * (c * c + d * d) - b * a"
    by (simp add: algebra_simps)
  then show "a * c * (b * c) + a * d * (b * d) - b * a = 0"
    using assms by simp
qed

text \<open>
  Claim C8.  For every polar angle \<open>t\<close> and azimuth \<open>p\<close>, the three vectors returned by
  \<open>rotbase\<close> form an orthonormal triad: each has Euclidean norm 1 and the three pairwise
  dot products are 0.
\<close>

theorem rotbase_orthonormal:
  "case rotbase t p of (er, et, ep) \<Rightarrow>
     norm3 er = 1 \<and> norm3 et = 1 \<and> norm3 ep = 1 \<and>
     dot er et = 0 \<and> dot er ep = 0 \<and> dot et ep = 0"
proof -
  have t: "sin t * sin t + cos t * cos t = 1" and t': "cos t * cos t + sin t * sin t = 1"
    and p: "sin p * sin p + cos p * cos p = 1" and p': "cos p * cos p + sin p * sin p = 1"
    using sin_cos_squared_add [of t] sin_cos_squared_add [of p]
    by (simp_all add: power2_eq_square add.commute)
  note 1 = trig_combine(1) [OF t p]
  note 2 = trig_combine(1) [OF t' p]
  note 4 = trig_combine(2) [OF t p]
  show ?thesis
    using 1 2 p' 4 by (simp add: rotbase_def dot_def norm3_def)
qed

section \<open>Properties of the mock position-velocity pipeline\<close>

































subsection \<open>Intensity bounds\<close>




text \<open>
  The other hypotheses are needed as well.  On a cube of zeros the division by the maximum
  is a division by zero, and the image holds \<open>nan\<close>.  A call with line width 0 stores the
  \<open>nan\<close> kernel, which a later call with a proper line width then finds in the cache and
  uses.
\<close>

lemma generate_pvd_zero_cube:
  "generate_pvd
     (fixed_tau [[[0, 0, 0], [0, 0, 0]], [[0, 0, 0], [0, 0, 0]]])
     \<lparr>self_x = [0, 1], self_y = None, self_v = [0, 1], grid_ny = 3, nsubgrid = 1,
      self_beam = None\<rparr>
     empty_cache [1 :: real] [0] 1 None None 0 =
   (Inr (BadImg (2, 2)),
    \<lparr>vedge = Some [- 1 / 2, 1 / 2, 3 / 2], gauss_v = None, gauss_xy = None\<rparr>)"
  by (simp add: generate_pvd_def Let_def fixed_tau_def empty_cache_def vedge_of_def
      spectral_step_def nanmax_def beam_step_def shape_def bind_err_def)

lemma generate_pvd_zero_linewidth:
  "generate_pvd (fixed_tau 
     [[[1, 1, 1], [1, 1, 1]], [[0, 0, 0], [0, 0, 0]], [[0, 0, 0], [0, 0, 0]]]) 
     \<lparr>self_x = [0, 1], self_y = None, self_v = [- 1, 0, 1], grid_ny = 3, nsubgrid = 1,
      self_beam = None\<rparr> empty_cache [1 :: real] [0] 1 None (Some 0) 0 =
   (Inr (BadImg (3, 2)),
    \<lparr>vedge = Some [- 3 / 2, - 1 / 2, 1 / 2, 3 / 2], gauss_v = Some NanKernel,
     gauss_xy = None\<rparr>)"
  by (simp add: generate_pvd_def Let_def fixed_tau_def empty_cache_def vedge_of_def
      spectral_step_def spectral_kernel_def beam_step_def shape_def bind_err_def)

lemma generate_pvd_nan_kernel_reused:
  "generate_pvd (fixed_tau 
     [[[1, 1, 1], [1, 1, 1]], [[0, 0, 0], [0, 0, 0]], [[0, 0, 0], [0, 0, 0]]]) 
     \<lparr>self_x = [0, 1], self_y = None, self_v = [- 1, 0, 1], grid_ny = 3, nsubgrid = 1,
      self_beam = None\<rparr>
     \<lparr>vedge = Some [- 3 / 2, - 1 / 2, 1 / 2, 3 / 2], gauss_v = Some NanKernel,
      gauss_xy = None\<rparr> [1 :: real] [0] 1 None (Some 1) 0 =
   (Inr (BadImg (3, 2)),
    \<lparr>vedge = Some [- 3 / 2, - 1 / 2, 1 / 2, 3 / 2], gauss_v = Some NanKernel,
     gauss_xy = None\<rparr>)"
  by (simp add: generate_pvd_def Let_def fixed_tau_def spectral_step_def beam_step_def
      shape_def bind_err_def)

subsection \<open>Line integration over the nested grid\<close>

lemma sum_list_replicate_const:
  "list_all (\<lambda>s. s = c) xs \<Longrightarrow> sum_list xs = c * real (length xs)"
  by (induction xs) (simp_all add: algebra_simps)

lemma integrate_along_constant:
  "nested ls \<Longrightarrow> constant_field c ls \<Longrightarrow> integrate_along ls = c * path_length ls"
proof (induction ls rule: integrate_along.induct)
  case 1
  then show ?case by (simp add: path_length_def)
next
  case (2 l)
  then show ?case
    by (simp add: path_length_def constant_field_def sum_list_replicate_const)
next
  case (3 l finer rest)
  let ?n = "length (samples l)"
  from "3.prems" have nest: "nested (finer # rest)" and rng: "lo l \<le> hi l" "hi l \<le> ?n"
    by simp_all
  from "3.prems" have cf: "constant_field c (finer # rest)" and cl: "list_all (\<lambda>s. s = c) (samples l)"
    by (simp_all add: constant_field_def)
  have IH: "integrate_along (finer # rest) = c * (spacing finer * real (length (samples finer)))"
    using "3.IH" [OF nest cf] by (simp add: path_length_def)
  have inner: "spacing finer * real (length (samples finer)) = spacing l * real (hi l - lo l)"
  proof (cases "lo l = hi l")
    case True
    with "3.prems" show ?thesis by simp
  next
    case False
    let ?m = "length (samples finer)" and ?d = "hi l - lo l"
    from False "3.prems" have md: "?m mod ?d = 0"
      and sp: "spacing finer * real (?m div ?d) = spacing l" by simp_all
    from md have "?m = (?m div ?d) * ?d" by auto
    then have "real ?m = real (?m div ?d) * real ?d"
      by (metis of_nat_mult)
    then have "spacing finer * real ?m = (spacing finer * real (?m div ?d)) * real ?d"
      by simp
    then show ?thesis by (simp add: sp)
  qed
  have tk: "list_all (\<lambda>s. s = c) (take (lo l) (samples l))"
    and dr: "list_all (\<lambda>s. s = c) (drop (hi l) (samples l))"
    using cl by (auto simp add: list_all_iff dest: in_set_takeD in_set_dropD)
  have outer: "sum_list (take (lo l) (samples l)) + sum_list (drop (hi l) (samples l))
             = c * (real (lo l) + real (?n - hi l))"
    using rng by (simp add: sum_list_replicate_const [OF tk] sum_list_replicate_const [OF dr]
        min_def algebra_simps)
  have cnt: "real (lo l) + real (?n - hi l) + real (hi l - lo l) = real ?n"
    using rng by simp
  have "integrate_along (l # finer # rest)
      = spacing l * (c * (real (lo l) + real (?n - hi l))) + c * (spacing l * real (hi l - lo l))"
    by (simp add: outer IH inner)
  also have "\<dots> = c * (spacing l * (real (lo l) + real (?n - hi l) + real (hi l - lo l)))"
    by (simp add: algebra_simps)
  also have "\<dots> = c * (spacing l * real ?n)" by (simp only: cnt)
  finally show ?case by (simp add: path_length_def)
qed

text \<open>
  Claim C2.  For a nested grid of any number of levels (two and three among them) and a
  field that is the constant \<open>c\<close> at every sample of every level, the line integral is
  \<open>c\<close> times the physical length of the path, however the boxes of the finer levels lie
  on the path: no sub-interval is counted by two levels.
\<close>

theorem integrate_along_no_double_count:
  assumes "nested ls" and "constant_field c ls"
  shows "integrate_along ls = c * path_length ls"
  using assms by (rule integrate_along_constant)

text \<open>
  Witness of C2: three levels on a path of length 4, the second refining two cells of the
  first by a factor 2, the third missing the line.
\<close>

theorem integrate_along_no_double_count_witness:
  "nested [\<lparr>spacing = 1, samples = [5, 5, 5, 5], lo = 1, hi = 3\<rparr>,
           \<lparr>spacing = 1 / 2, samples = [5, 5, 5, 5], lo = 1, hi = 2\<rparr>,
           \<lparr>spacing = 1 / 4, samples = [5, 5], lo = 0, hi = 0\<rparr>] \<and>
   constant_field 5
          [\<lparr>spacing = 1, samples = [5, 5, 5, 5], lo = 1, hi = 3\<rparr>,
           \<lparr>spacing = 1 / 2, samples = [5, 5, 5, 5], lo = 1, hi = 2\<rparr>,
           \<lparr>spacing = 1 / 4, samples = [5, 5], lo = 0, hi = 0\<rparr>] \<and>
   integrate_along
          [\<lparr>spacing = 1, samples = [5, 5, 5, 5], lo = 1, hi = 3\<rparr>,
           \<lparr>spacing = 1 / 2, samples = [5, 5, 5, 5], lo = 1, hi = 2\<rparr>,
           \<lparr>spacing = 1 / 4, samples = [5, 5], lo = 0, hi = 0\<rparr>] = 20"
proof -
  let ?ls = "[\<lparr>spacing = 1, samples = [5, 5, 5, 5], lo = 1, hi = 3\<rparr>,
           \<lparr>spacing = 1 / 2, samples = [5, 5, 5, 5], lo = 1, hi = 2\<rparr>,
           \<lparr>spacing = 1 / 4, samples = [5, 5], lo = 0, hi = 0\<rparr>]"
  have n: "nested ?ls" by simp
  have c: "constant_field 5 ?ls" by (simp add: constant_field_def)
  show ?thesis
    using integrate_along_no_double_count [OF n c] n c by (simp add: path_length_def)
qed

subsection \<open>The axis check of \<open>generate_mockpvd\<close>\<close>

text \<open>
  Claim C6, as amended.  When the axis is none of \<open>major\<close>, \<open>minor\<close> and \<open>both\<close>,
  \<open>generate_mockpvd\<close> prints one line that names the three admissible values and returns the
  integer \<open>0\<close> as an ordinary return value; it raises nothing, builds no model and leaves
  the cache as it was.
\<close>

theorem generate_mockpvd_invalid_axis:
  assumes "axis \<notin> {''major'', ''minor'', ''both''}"
  shows "generate_mockpvd los_tau build self st taumax pa linewidth axis =
           (Inr ([axis_error_message], PyInt 0), st)"
  using assms by (simp add: generate_mockpvd_def)

text \<open>Witness of C6 at the axis \<open>x\<close>.\<close>

theorem generate_mockpvd_invalid_axis_witness:
  "''x'' \<notin> {''major'', ''minor'', ''both''} \<and>
   generate_mockpvd (fixed_tau []) (fixed_build ([1], [0]))
     \<lparr>self_x = [0, 1], self_y = None, self_v = [0, 1], grid_ny = 3, nsubgrid = 1,
      self_beam = None\<rparr> empty_cache 1 (PaList [0, 90]) None ''x'' =
   (Inr ([axis_error_message], PyInt 0), empty_cache)"
proof -
  have a: "''x'' \<notin> {''major'', ''minor'', ''both''}" by simp
  show ?thesis using generate_mockpvd_invalid_axis [OF a] a by simp
qed

text \<open>
  Claim C6 as stated fails: for the axis \<open>diagonal\<close> the call returns normally, and what it
  returns is the data value \<open>0\<close>, not an error.
\<close>

theorem generate_mockpvd_sentinel_counterexample:
  "\<not> isl (fst (generate_mockpvd (fixed_tau []) (fixed_build ([1], [0]))
     \<lparr>self_x = [0, 1], self_y = None, self_v = [0, 1], grid_ny = 3, nsubgrid = 1,
      self_beam = None\<rparr> empty_cache 1 (PaFloat 0) None ''diagonal'')) \<and>
   generate_mockpvd (fixed_tau []) (fixed_build ([1], [0]))
     \<lparr>self_x = [0, 1], self_y = None, self_v = [0, 1], grid_ny = 3, nsubgrid = 1,
      self_beam = None\<rparr> empty_cache 1 (PaFloat 0) None ''diagonal'' =
   (Inr ([axis_error_message], PyInt 0), empty_cache)"
  by (simp add: generate_mockpvd_def)

subsection \<open>The kernel cache and the spectral convolution at concrete inputs\<close>

lemma spectral_kernel_three:
  assumes "l \<noteq> 0"
  shows "spectral_kernel [- 1, 0, 1] l =
           Kernel [[[exp (- 1 / l\<^sup>2) / (1 + 2 * exp (- 1 / l\<^sup>2))]],
                   [[1 / (1 + 2 * exp (- 1 / l\<^sup>2))]],
                   [[exp (- 1 / l\<^sup>2) / (1 + 2 * exp (- 1 / l\<^sup>2))]]]"
  using assms by (simp add: spectral_kernel_def Let_def)

lemma convolve_first_plane:
  "convolve_same [[[1, 1, 1], [1, 1, 1]], [[0, 0, 0], [0, 0, 0]], [[0, 0, 0], [0, 0, 0]]]
     [[[c]], [[b]], [[c]]] =
   [[[b, b, b], [b, b, b]], [[c, c, c], [c, c, c]], [[0, 0, 0], [0, 0, 0]]]"
  by (simp add: convolve_same_def shape_def upt_rec kernel_at_def)

lemma intensity_planes:
  assumes "0 < b" and "0 \<le> c" and "c \<le> b"
  shows "intensity
           (Arr [[[b, b, b], [b, b, b]], [[c, c, c], [c, c, c]], [[0, 0, 0], [0, 0, 0]]]) tm =
         Inr (Arr [[[1 - exp (- tm), 1 - exp (- tm), 1 - exp (- tm)],
                    [1 - exp (- tm), 1 - exp (- tm), 1 - exp (- tm)]],
                   [[1 - exp (- c / b * tm), 1 - exp (- c / b * tm), 1 - exp (- c / b * tm)],
                    [1 - exp (- c / b * tm), 1 - exp (- c / b * tm), 1 - exp (- c / b * tm)]],
                   [[0, 0, 0], [0, 0, 0]]])"
  using assms by (simp add: nanmax_def bind_err_def max_def)

lemma kernel_ratio:
  fixes E :: real
  assumes "0 < E" and "E \<le> 1"
  shows "0 < 1 / (1 + 2 * E)" and "0 \<le> E / (1 + 2 * E)" and "E / (1 + 2 * E) \<le> 1 / (1 + 2 * E)"
    and "E / (1 + 2 * E) / (1 / (1 + 2 * E)) = E"
  using assms by (simp_all add: divide_le_cancel)

lemma pvd_fresh:
  assumes l: "l \<noteq> 0"
  shows "generate_pvd
     (fixed_tau [[[1, 1, 1], [1, 1, 1]], [[0, 0, 0], [0, 0, 0]], [[0, 0, 0], [0, 0, 0]]])
     \<lparr>self_x = [0, 1], self_y = None, self_v = [- 1, 0, 1], grid_ny = 3, nsubgrid = 1,
      self_beam = None\<rparr>
     empty_cache rho vlos 1 None (Some l) pa =
   (Inr (Img [[1 - exp (- 1), 1 - exp (- 1)],
              [1 - exp (- exp (- 1 / l\<^sup>2)), 1 - exp (- exp (- 1 / l\<^sup>2))],
              [0, 0]]),
    \<lparr>vedge = Some [- 3 / 2, - 1 / 2, 1 / 2, 3 / 2],
     gauss_v = Some (Kernel [[[exp (- 1 / l\<^sup>2) / (1 + 2 * exp (- 1 / l\<^sup>2))]],
                             [[1 / (1 + 2 * exp (- 1 / l\<^sup>2))]],
                             [[exp (- 1 / l\<^sup>2) / (1 + 2 * exp (- 1 / l\<^sup>2))]]]),
     gauss_xy = None\<rparr>)"
proof -
  define E where "E = exp (- 1 / l\<^sup>2)"
  define b where "b = 1 / (1 + 2 * E)"
  define c where "c = E / (1 + 2 * E)"
  have E: "0 < E" "E \<le> 1" by (simp_all add: E_def)
  have r: "0 < b" "0 \<le> c" "c \<le> b" "c / b = E"
    using kernel_ratio [OF E] by (simp_all add: b_def c_def)
  have k: "spectral_kernel [- 1, 0, 1] l = Kernel [[[c]], [[b]], [[c]]]"
    unfolding c_def b_def E_def by (rule spectral_kernel_three [OF l])
  have i: "intensity
             (Arr [[[b, b, b], [b, b, b]], [[c, c, c], [c, c, c]], [[0, 0, 0], [0, 0, 0]]]) 1 =
         Inr (Arr [[[1 - exp (- 1), 1 - exp (- 1), 1 - exp (- 1)],
                    [1 - exp (- 1), 1 - exp (- 1), 1 - exp (- 1)]],
                   [[1 - exp (- E), 1 - exp (- E), 1 - exp (- E)],
                    [1 - exp (- E), 1 - exp (- E), 1 - exp (- E)]],
                   [[0, 0, 0], [0, 0, 0]]])"
    using intensity_planes [OF r(1,2,3), of 1] r(4) by simp
  have "generate_pvd
     (fixed_tau [[[1, 1, 1], [1, 1, 1]], [[0, 0, 0], [0, 0, 0]], [[0, 0, 0], [0, 0, 0]]])
     \<lparr>self_x = [0, 1], self_y = None, self_v = [- 1, 0, 1], grid_ny = 3, nsubgrid = 1,
      self_beam = None\<rparr>
     empty_cache rho vlos 1 None (Some l) pa =
   (Inr (Img [[1 - exp (- 1), 1 - exp (- 1)], [1 - exp (- E), 1 - exp (- E)], [0, 0]]),
    \<lparr>vedge = Some [- 3 / 2, - 1 / 2, 1 / 2, 3 / 2],
     gauss_v = Some (Kernel [[[c]], [[b]], [[c]]]), gauss_xy = None\<rparr>)"
    unfolding generate_pvd_def Let_def
    by (simp add: fixed_tau_def empty_cache_def vedge_of_def spectral_step_def k
        convolve_first_plane i beam_step_def shape_def bind_err_def del: intensity.simps)
  then show ?thesis unfolding c_def b_def E_def .
qed

lemma pvd_cached:
  assumes r: "0 < b" "0 \<le> c" "c \<le> b"
  shows "generate_pvd
     (fixed_tau [[[1, 1, 1], [1, 1, 1]], [[0, 0, 0], [0, 0, 0]], [[0, 0, 0], [0, 0, 0]]])
     \<lparr>self_x = [0, 1], self_y = None, self_v = [- 1, 0, 1], grid_ny = 3, nsubgrid = 1,
      self_beam = None\<rparr>
     \<lparr>vedge = Some ve, gauss_v = Some (Kernel [[[c]], [[b]], [[c]]]), gauss_xy = None\<rparr>
     rho vlos 1 None (Some l) pa =
   (Inr (Img [[1 - exp (- 1), 1 - exp (- 1)], [1 - exp (- c / b), 1 - exp (- c / b)], [0, 0]]),
    \<lparr>vedge = Some ve, gauss_v = Some (Kernel [[[c]], [[b]], [[c]]]), gauss_xy = None\<rparr>)"
  unfolding generate_pvd_def Let_def
  using intensity_planes [OF r, of 1]
  by (simp add: fixed_tau_def spectral_step_def convolve_first_plane
      beam_step_def shape_def bind_err_def del: intensity.simps)

lemma spectral_step_ignores_linewidth:
  assumes "gauss_v st = Some g"
  shows "spectral_step v (Some l1) st tau = spectral_step v (Some l2) st tau"
  using assms by (simp add: spectral_step_def)

lemma beam_step_ignores_pa:
  assumes "gauss_xy st = Some g"
  shows "beam_step self (Some b1) pa1 st c = beam_step self (Some b2) pa2 st c"
  using assms by (simp add: beam_step_def)

text \<open>
  Once the three cached values are present, \<open>generate_pvd\<close> no longer looks at the line
  width, the beam or the position angle it is given: no call replaces a cached kernel.
\<close>

lemma generate_pvd_ignores_parameters:
  assumes "vedge st = Some e" and "gauss_v st = Some gv" and "gauss_xy st = Some gxy"
  shows "generate_pvd los_tau self st rho vlos taumax (Some b1) (Some l1) pa1 =
         generate_pvd los_tau self st rho vlos taumax (Some b2) (Some l2) pa2"
proof -
  have b: "beam_step self (Some b1) pa1 st = beam_step self (Some b2) pa2 st"
    by (rule ext) (rule beam_step_ignores_pa [OF assms(3)])
  show ?thesis
    unfolding generate_pvd_def Let_def
    using assms(1,2) by (simp add: spectral_step_def b cong: sum.case_cong)
qed

text \<open>
  Claim C4 fails on the code.  Two call histories end with the same call, line width 2 on
  the same object and fields: the first history makes a call with line width 1 before it,
  the second starts from the empty cache.  The first ends with the image that line width 1
  gives, because the kernel cached by the earlier call is used again; the second ends with
  a different image.
\<close>

theorem generate_pvd_stale_kernel:
  "fst (generate_pvd
        (fixed_tau [[[1, 1, 1], [1, 1, 1]], [[0, 0, 0], [0, 0, 0]], [[0, 0, 0], [0, 0, 0]]])
        \<lparr>self_x = [0, 1], self_y = None, self_v = [- 1, 0, 1], grid_ny = 3, nsubgrid = 1,
         self_beam = None\<rparr>
        (snd (generate_pvd
           (fixed_tau [[[1, 1, 1], [1, 1, 1]], [[0, 0, 0], [0, 0, 0]], [[0, 0, 0], [0, 0, 0]]])
           \<lparr>self_x = [0, 1], self_y = None, self_v = [- 1, 0, 1], grid_ny = 3, nsubgrid = 1,
            self_beam = None\<rparr>
           empty_cache [1 :: real] [0] 1 None (Some 1) 0))
        [1 :: real] [0] 1 None (Some 2) 0) =
   Inr (Img [[1 - exp (- 1), 1 - exp (- 1)],
             [1 - exp (- exp (- 1)), 1 - exp (- exp (- 1))],
             [0, 0]]) \<and>
   fst (generate_pvd
        (fixed_tau [[[1, 1, 1], [1, 1, 1]], [[0, 0, 0], [0, 0, 0]], [[0, 0, 0], [0, 0, 0]]])
        \<lparr>self_x = [0, 1], self_y = None, self_v = [- 1, 0, 1], grid_ny = 3, nsubgrid = 1,
         self_beam = None\<rparr>
        empty_cache [1 :: real] [0] 1 None (Some 2) 0) =
   Inr (Img [[1 - exp (- 1), 1 - exp (- 1)],
             [1 - exp (- exp (- 1 / 4)), 1 - exp (- exp (- 1 / 4))],
             [0, 0]]) \<and>
   1 - exp (- exp (- 1)) \<noteq> 1 - exp (- exp (- 1 / 4 :: real))"
proof -
  have E: "(0::real) < exp (- 1)" "exp (- 1) \<le> (1::real)" by simp_all
  note r = kernel_ratio [OF E]
  have one: "(1::real) \<noteq> 0" and two: "(2::real) \<noteq> 0" by simp_all
  note first = pvd_fresh [OF one, of "[1 :: real]" "[0 :: real]" 0]
  note second = pvd_cached [OF r(1,2,3), of "[- 3 / 2, - 1 / 2, 1 / 2, 3 / 2]" "[1 :: real]" "[0 :: real]" 2 0]
  note fresh = pvd_fresh [OF two, of "[1 :: real]" "[0 :: real]" 0]
  have a: "fst (generate_pvd
        (fixed_tau [[[1, 1, 1], [1, 1, 1]], [[0, 0, 0], [0, 0, 0]], [[0, 0, 0], [0, 0, 0]]])
        \<lparr>self_x = [0, 1], self_y = None, self_v = [- 1, 0, 1], grid_ny = 3, nsubgrid = 1,
         self_beam = None\<rparr>
        (snd (generate_pvd
           (fixed_tau [[[1, 1, 1], [1, 1, 1]], [[0, 0, 0], [0, 0, 0]], [[0, 0, 0], [0, 0, 0]]])
           \<lparr>self_x = [0, 1], self_y = None, self_v = [- 1, 0, 1], grid_ny = 3, nsubgrid = 1,
            self_beam = None\<rparr>
           empty_cache [1 :: real] [0] 1 None (Some 1) 0))
        [1 :: real] [0] 1 None (Some 2) 0) =
   Inr (Img [[1 - exp (- 1), 1 - exp (- 1)],
             [1 - exp (- exp (- 1)), 1 - exp (- exp (- 1))],
             [0, 0]])"
    using first second r(4) by simp
  have b: "fst (generate_pvd
        (fixed_tau [[[1, 1, 1], [1, 1, 1]], [[0, 0, 0], [0, 0, 0]], [[0, 0, 0], [0, 0, 0]]])
        \<lparr>self_x = [0, 1], self_y = None, self_v = [- 1, 0, 1], grid_ny = 3, nsubgrid = 1,
         self_beam = None\<rparr>
        empty_cache [1 :: real] [0] 1 None (Some 2) 0) =
   Inr (Img [[1 - exp (- 1), 1 - exp (- 1)],
             [1 - exp (- exp (- 1 / 4)), 1 - exp (- exp (- 1 / 4))],
             [0, 0]])"
    using fresh by simp
  have c: "1 - exp (- exp (- 1)) \<noteq> 1 - exp (- exp (- 1 / 4 :: real))" by simp
  from a b c show ?thesis by (intro conjI)
qed

text \<open>
  Claim C5 fails on the code.  With three velocity channels \<open>[-1, 0, 1]\<close>, line width 1 and
  an optical-depth cube whose mass lies in the first channel, the sum over the cube is 6
  before the spectral convolution and \<open>6 (1 + 1/e) / (1 + 2/e)\<close> after it: the part of the
  full convolution that falls before the first channel is cut off by mode \<open>same\<close>.
\<close>

theorem spectral_convolution_truncates:
  "total_arr (fst
     (spectral_step [- 1, 0, 1] (Some 1) empty_cache
        (Arr [[[1, 1, 1], [1, 1, 1]], [[0, 0, 0], [0, 0, 0]], [[0, 0, 0], [0, 0, 0]]]))) =
   Some (6 * (1 + exp (- 1)) / (1 + 2 * exp (- 1))) \<and>
   total [[[1, 1, 1], [1, 1, 1]], [[0, 0, 0], [0, 0, 0]], [[0, 0, 0], [0, 0, 0]]] = 6 \<and>
   6 * (1 + exp (- 1)) / (1 + 2 * exp (- 1)) < (6 :: real)"
proof -
  have one: "(1::real) \<noteq> 0" by simp
  have k: "spectral_kernel [- 1, 0, 1] 1 =
           Kernel [[[exp (- 1) / (1 + 2 * exp (- 1))]],
                   [[1 / (1 + 2 * exp (- 1))]],
                   [[exp (- 1) / (1 + 2 * exp (- 1))]]]"
    using spectral_kernel_three [OF one] by simp
  have a: "total_arr (fst
     (spectral_step [- 1, 0, 1] (Some 1) empty_cache
        (Arr [[[1, 1, 1], [1, 1, 1]], [[0, 0, 0], [0, 0, 0]], [[0, 0, 0], [0, 0, 0]]]))) =
   Some (6 * (1 + exp (- 1)) / (1 + 2 * exp (- 1)))"
    by (simp add: spectral_step_def empty_cache_def k convolve_first_plane total_arr_def
        total_def add_divide_distrib Let_def)
  have b: "total [[[1, 1, 1], [1, 1, 1]], [[0, 0, 0], [0, 0, 0]], [[0, 0, 0], [0, 0, 0]]] = 6"
    by (simp add: total_def)
  have c: "6 * (1 + exp (- 1)) / (1 + 2 * exp (- 1)) < (6 :: real)"
  proof -
    define E :: real where "E = exp (- 1)"
    have E: "0 < E" by (simp add: E_def)
    then have "0 < 1 + 2 * E" by simp
    moreover have "6 * (1 + E) < 6 * (1 + 2 * E)" using E by simp
    ultimately have "6 * (1 + E) / (1 + 2 * E) < 6" by (simp add: pos_divide_less_eq)
    then show ?thesis by (simp add: E_def)
  qed
  from a b c show ?thesis by (intro conjI)
qed

section \<open>Properties of the fit-result table\<close>

lemma words_acc_append:
  "list_all (\<lambda>c. \<not> is_space c) t \<Longrightarrow> words_acc cur (t @ rest) = words_acc (cur @ t) rest"
  by (induction t arbitrary: cur) simp_all

lemma token_ok_parts:
  assumes "token_ok t"
  shows "t \<noteq> []" and "list_all (\<lambda>c. \<not> is_space c) t" and "CHR ''#'' \<notin> set t"
    and "newline \<notin> set t"
proof -
  from assms show "t \<noteq> []" by (simp add: token_ok_def)
  from assms show s: "list_all (\<lambda>c. \<not> is_space c) t"
    by (auto simp add: token_ok_def list_all_iff)
  from assms show "CHR ''#'' \<notin> set t" by (auto simp add: token_ok_def list_all_iff)
  have "is_space newline" by (simp add: is_space_def newline_def)
  with s show "newline \<notin> set t" by (auto simp add: list_all_iff)
qed

lemma space_is_space: "is_space CHR '' ''"
  by (simp add: is_space_def)

lemma split_ws_join_sp:
  "list_all token_ok ts \<Longrightarrow> words_acc [] (join_sp ts) = ts"
proof (induction ts rule: join_sp.induct)
  case 1
  then show ?case by simp
next
  case (2 x)
  then have x: "token_ok x" by simp
  have "words_acc [] (x @ []) = words_acc ([] @ x) []"
    by (rule words_acc_append [OF token_ok_parts(2) [OF x]])
  then show ?case using token_ok_parts(1) [OF x] by simp
next
  case (3 x y ys)
  then have x: "token_ok x" and rest: "list_all token_ok (y # ys)" by simp_all
  have "words_acc [] (x @ CHR '' '' # join_sp (y # ys)) = words_acc ([] @ x) (CHR '' '' # join_sp (y # ys))"
    by (rule words_acc_append [OF token_ok_parts(2) [OF x]])
  also have "\<dots> = x # words_acc [] (join_sp (y # ys))"
    using token_ok_parts(1) [OF x] space_is_space by simp
  finally show ?case using "3.IH" [OF rest] by simp
qed

lemma set_join_sp: "set (join_sp ts) \<subseteq> (\<Union>t \<in> set ts. set t) \<union> {CHR '' ''}"
  by (induction ts rule: join_sp.induct) auto

lemma join_sp_free:
  assumes "list_all token_ok ts"
  shows "CHR ''#'' \<notin> set (join_sp ts)" and "newline \<notin> set (join_sp ts)"
proof -
  have a: "\<And>t. t \<in> set ts \<Longrightarrow> CHR ''#'' \<notin> set t \<and> newline \<notin> set t"
    using assms token_ok_parts(3,4) by (auto simp add: list_all_iff)
  have b: "CHR ''#'' \<noteq> CHR '' ''" "newline \<noteq> CHR '' ''" by (simp_all add: newline_def)
  show "CHR ''#'' \<notin> set (join_sp ts)" using set_join_sp [of ts] a b(1) by auto
  show "newline \<notin> set (join_sp ts)" using set_join_sp [of ts] a b(2) by auto
qed

lemma split_line_join_sp:
  assumes "list_all token_ok ts"
  shows "split_line (join_sp ts) = ts"
proof -
  have tw: "takeWhile (\<lambda>c. c \<noteq> CHR ''#'') (join_sp ts) = join_sp ts"
    using join_sp_free(1) [OF assms] by (auto simp add: takeWhile_eq_all_conv)
  show ?thesis
    unfolding split_line_def split_ws_def tw by (rule split_ws_join_sp [OF assms])
qed

lemma lines_acc_append:
  "newline \<notin> set l \<Longrightarrow> lines_acc cur (l @ rest) = lines_acc (cur @ l) rest"
  by (induction l arbitrary: cur) auto

lemma file_lines_terminated:
  "list_all (\<lambda>l. newline \<notin> set l) ls \<Longrightarrow>
   lines_acc [] (concat (map (\<lambda>l. l @ [newline]) ls)) = ls"
proof (induction ls)
  case Nil
  then show ?case by simp
next
  case (Cons l ls)
  then have l: "newline \<notin> set l" and rest: "list_all (\<lambda>l. newline \<notin> set l) ls" by simp_all
  have "lines_acc [] (l @ newline # concat (map (\<lambda>l. l @ [newline]) ls))
      = lines_acc ([] @ l) (newline # concat (map (\<lambda>l. l @ [newline]) ls))"
    by (rule lines_acc_append [OF l])
  then show ?case using Cons.IH [OF rest] by simp
qed

lemma header_line:
  "fit_header = ''# popt plow pmid phigh'' @ [newline]"
  "newline \<notin> set ''# popt plow pmid phigh''"
  "split_line ''# popt plow pmid phigh'' = []"
  by (simp_all add: fit_header_def newline_def split_line_def split_ws_def)

lemma genfromtxt_table:
  assumes rows: "list_all (\<lambda>cells. length cells = 5 \<and> list_all token_ok cells) rows"
  shows "genfromtxt of_text [1, 2, 3, 4] (fit_header @ savetxt rows) =
           Inr (map (\<lambda>cells. map (\<lambda>u. of_text (cells ! u)) [1, 2, 3, 4]) rows)"
proof -
  let ?ls = "''# popt plow pmid phigh'' # map join_sp rows"
  have nl: "list_all (\<lambda>l. newline \<notin> set l) ?ls"
    using rows header_line(2) join_sp_free(2) by (auto simp add: list_all_iff)
  have "fit_header @ savetxt rows = concat (map (\<lambda>l. l @ [newline]) ?ls)"
    by (simp add: header_line(1) savetxt_def o_def)
  then have fl: "file_lines (fit_header @ savetxt rows) = ?ls"
    using file_lines_terminated [OF nl] by (simp add: file_lines_def)
  have sp: "map (split_line \<circ> join_sp) rows = rows"
  proof -
    have "map (split_line \<circ> join_sp) rows = map (\<lambda>cells. cells) rows"
      by (rule map_cong [OF refl]) (use rows in \<open>auto simp add: list_all_iff split_line_join_sp\<close>)
    then show ?thesis by simp
  qed
  have ne: "filter (\<lambda>vs. vs \<noteq> []) rows = rows"
    using rows by (auto simp add: list_all_iff filter_id_conv)
  have ok: "\<not> list_ex (\<lambda>vs. list_ex (\<lambda>u. length vs \<le> u) [1, 2, 3, 4]) rows"
    using rows by (auto simp add: list_all_iff list_ex_iff)
  show ?thesis
    unfolding genfromtxt_def Let_def fl
    using ok by (simp add: header_line(3) sp ne)
qed

lemma fit_labels_tokens: "list_all token_ok fit_labels" "length fit_labels = 7"
  by (simp_all add: fit_labels_def token_ok_def is_space_def)

lemma table_rows_value:
  assumes len: "length (popt r) = 7" "length (plow r) = 7" "length (pmid r) = 7"
    "length (phigh r) = 7"
  shows "table_rows to_text r =
           Inr (map (\<lambda>i. [fit_labels ! i, to_text (popt r ! i), to_text (plow r ! i),
                           to_text (pmid r ! i), to_text (phigh r ! i)]) [0..<7])"
  using len by (simp add: table_rows_def Let_def fit_labels_tokens(2))

text \<open>
  Claim C7.  Take a fit result with one entry per label in each of its four vectors, and
  conversions between floats and text under which every value of the result is written as
  one token and read back within the precision \<open>prec\<close> of the serialization.  Then
  \<open>writeout_fitres\<close> writes the file \<open>fout.txt\<close> and returns, and \<open>read_fitres\<close> on the
  content of that file yields four vectors of the same lengths whose entries are within
  \<open>prec\<close> of the best, low, mid and high values written: the header line is skipped as a
  comment, the label column is ignored, and the columns 1 to 4 are taken by index.
\<close>

theorem fitres_round_trip:
  assumes len: "length (popt r) = 7" "length (plow r) = 7" "length (pmid r) = 7"
    "length (phigh r) = 7"
    and conv: "list_all (conversion_ok to_text of_text prec)
                 (popt r @ plow r @ pmid r @ phigh r)"
  shows "\<exists>content r'.
           writeout_fitres to_text (Some r) fout = ([], Inr None, Some (fout @ ''.txt'', content)) \<and>
           read_fitres of_text content = Inr r' \<and>
           list_all2 (close_to prec) (popt r') (popt r) \<and>
           list_all2 (close_to prec) (plow r') (plow r) \<and>
           list_all2 (close_to prec) (pmid r') (pmid r) \<and>
           list_all2 (close_to prec) (phigh r') (phigh r)"
proof -
  let ?rows = "map (\<lambda>i. [fit_labels ! i, to_text (popt r ! i), to_text (plow r ! i),
                          to_text (pmid r ! i), to_text (phigh r ! i)]) [0..<7]"
  let ?content = "fit_header @ savetxt ?rows"
  have ok: "\<And>xs (i :: nat). xs \<in> {popt r, plow r, pmid r, phigh r} \<Longrightarrow> i < 7 \<Longrightarrow>
              conversion_ok to_text of_text prec (xs ! i)"
  proof -
    fix xs and i :: nat
    assume xs: "xs \<in> {popt r, plow r, pmid r, phigh r}" and i: "i < 7"
    from xs len have "length xs = 7" by auto
    with i have "xs ! i \<in> set xs" by simp
    with xs have "xs ! i \<in> set (popt r @ plow r @ pmid r @ phigh r)" by auto
    with conv show "conversion_ok to_text of_text prec (xs ! i)" by (simp add: list_all_iff)
  qed
  have lab: "\<And>i. i < 7 \<Longrightarrow> token_ok (fit_labels ! i)"
    using fit_labels_tokens by (simp add: list_all_length)
  have rows: "list_all (\<lambda>cells. length cells = 5 \<and> list_all token_ok cells) ?rows"
    using ok lab by (auto simp add: list_all_iff conversion_ok_def)
  have w: "writeout_fitres to_text (Some r) fout = ([], Inr None, Some (fout @ ''.txt'', ?content))"
    by (simp add: writeout_fitres_def table_rows_value [OF len] Let_def)
  let ?r' = "\<lparr>popt = map (\<lambda>i. of_text (to_text (popt r ! i))) [0..<7],
              plow = map (\<lambda>i. of_text (to_text (plow r ! i))) [0..<7],
              pmid = map (\<lambda>i. of_text (to_text (pmid r ! i))) [0..<7],
              phigh = map (\<lambda>i. of_text (to_text (phigh r ! i))) [0..<7]\<rparr>"
  have rd: "read_fitres of_text ?content = Inr ?r'"
    unfolding read_fitres_def genfromtxt_table [OF rows]
    by (simp add: bind_err_def o_def)
  have cl: "\<And>xs. xs \<in> {popt r, plow r, pmid r, phigh r} \<Longrightarrow>
              list_all2 (close_to prec) (map (\<lambda>i. of_text (to_text (xs ! i))) [0..<7]) xs"
  proof -
    fix xs assume xs: "xs \<in> {popt r, plow r, pmid r, phigh r}"
    from xs len have l: "length xs = 7" by auto
    show "list_all2 (close_to prec) (map (\<lambda>i. of_text (to_text (xs ! i))) [0..<7]) xs"
      unfolding list_all2_conv_all_nth
      using l ok [OF xs] by (auto simp add: conversion_ok_def)
  qed
  have "list_all2 (close_to prec) (popt ?r') (popt r) \<and>
        list_all2 (close_to prec) (plow ?r') (plow r) \<and>
        list_all2 (close_to prec) (pmid ?r') (pmid r) \<and>
        list_all2 (close_to prec) (phigh ?r') (phigh r)"
    using cl [of "popt r"] cl [of "plow r"] cl [of "pmid r"] cl [of "phigh r"] by simp
  with w rd show ?thesis by blast
qed


text \<open>
  Witness of C7: seven rows of values \<open>1\<close> and \<open>1/2\<close>, written as \<open>1.0\<close> and \<open>0.5\<close> and read
  back exactly.
\<close>

theorem fitres_round_trip_witness:
  "list_all (conversion_ok (table_to_text [(1, ''1.0''), (1 / 2, ''0.5'')]) (table_of_text [(1, ''1.0''), (1 / 2, ''0.5'')]) 0)
     (popt \<lparr>popt = [1, 1 / 2, 1, 1, 1, 1, 1], plow = [1 / 2, 1 / 2, 1, 1, 1, 1, 1 / 2],
       pmid = [1, 1 / 2, 1, 1 / 2, 1, 1, 1], phigh = [1, 1, 1, 1, 1, 1, 1]\<rparr> @
      plow \<lparr>popt = [1, 1 / 2, 1, 1, 1, 1, 1], plow = [1 / 2, 1 / 2, 1, 1, 1, 1, 1 / 2],
       pmid = [1, 1 / 2, 1, 1 / 2, 1, 1, 1], phigh = [1, 1, 1, 1, 1, 1, 1]\<rparr> @
      pmid \<lparr>popt = [1, 1 / 2, 1, 1, 1, 1, 1], plow = [1 / 2, 1 / 2, 1, 1, 1, 1, 1 / 2],
       pmid = [1, 1 / 2, 1, 1 / 2, 1, 1, 1], phigh = [1, 1, 1, 1, 1, 1, 1]\<rparr> @
      phigh \<lparr>popt = [1, 1 / 2, 1, 1, 1, 1, 1], plow = [1 / 2, 1 / 2, 1, 1, 1, 1, 1 / 2],
       pmid = [1, 1 / 2, 1, 1 / 2, 1, 1, 1], phigh = [1, 1, 1, 1, 1, 1, 1]\<rparr>) \<and>
   (\<exists>content r'.
      writeout_fitres (table_to_text [(1, ''1.0''), (1 / 2, ''0.5'')])
        (Some \<lparr>popt = [1, 1 / 2, 1, 1, 1, 1, 1], plow = [1 / 2, 1 / 2, 1, 1, 1, 1, 1 / 2],
       pmid = [1, 1 / 2, 1, 1 / 2, 1, 1, 1], phigh = [1, 1, 1, 1, 1, 1, 1]\<rparr>) ''fit.popt'' =
        ([], Inr None, Some (''fit.popt.txt'', content)) \<and>
      read_fitres (table_of_text [(1, ''1.0''), (1 / 2, ''0.5'')]) content = Inr r' \<and>
      list_all2 (close_to 0) (popt r') [1, 1 / 2, 1, 1, 1, 1, 1] \<and>
      list_all2 (close_to 0) (plow r') [1 / 2, 1 / 2, 1, 1, 1, 1, 1 / 2] \<and>
      list_all2 (close_to 0) (pmid r') [1, 1 / 2, 1, 1 / 2, 1, 1, 1] \<and>
      list_all2 (close_to 0) (phigh r') [1, 1, 1, 1, 1, 1, 1])"
proof -
  let ?r = "\<lparr>popt = [1, 1 / 2, 1, 1, 1, 1, 1], plow = [1 / 2, 1 / 2, 1, 1, 1, 1, 1 / 2],
       pmid = [1, 1 / 2, 1, 1 / 2, 1, 1, 1], phigh = [1, 1, 1, 1, 1, 1, 1]\<rparr>"
  have len: "length (popt ?r) = 7" "length (plow ?r) = 7" "length (pmid ?r) = 7"
    "length (phigh ?r) = 7" by simp_all
  have conv: "list_all (conversion_ok (table_to_text [(1, ''1.0''), (1 / 2, ''0.5'')]) (table_of_text [(1, ''1.0''), (1 / 2, ''0.5'')]) 0)
                (popt ?r @ plow ?r @ pmid ?r @ phigh ?r)"
    by (simp add: conversion_ok_def table_to_text_def table_of_text_def token_ok_def
        is_space_def close_to_def)
  from fitres_round_trip [OF len conv, of "''fit.popt''"] conv show ?thesis by simp
qed

text \<open>The file of that result, and the call on an object without a fit.\<close>

lemma fitres_file_example:
  "writeout_fitres (table_to_text [(1, ''1.0''), (1 / 2, ''0.5'')])
     (Some \<lparr>popt = [1, 1 / 2, 1, 1, 1, 1, 1], plow = [1 / 2, 1 / 2, 1, 1, 1, 1, 1 / 2],
       pmid = [1, 1 / 2, 1, 1 / 2, 1, 1, 1], phigh = [1, 1, 1, 1, 1, 1, 1]\<rparr>) ''fit.popt'' =
   ([], Inr None,
    Some (''fit.popt.txt'',
          ''# popt plow pmid phigh'' @ [newline] @
          ''Mstar 1.0 0.5 1.0 1.0'' @ [newline] @
          ''Rc 0.5 0.5 0.5 1.0'' @ [newline] @
          ''alpha 1.0 1.0 1.0 1.0'' @ [newline] @
          ''fflux 1.0 1.0 0.5 1.0'' @ [newline] @
          ''log_ftau 1.0 1.0 1.0 1.0'' @ [newline] @
          ''log_frho 1.0 1.0 1.0 1.0'' @ [newline] @
          ''sig_mdl 1.0 0.5 1.0 1.0'' @ [newline]))"
  by (simp add: writeout_fitres_def table_rows_def fit_labels_def fit_header_def savetxt_def
      table_to_text_def Let_def upt_rec)

lemma writeout_fitres_without_popt:
  "writeout_fitres to_text None fout = (no_popt_messages, Inr (Some 0), None)"
  by (simp add: writeout_fitres_def)

end
